theory Spec2Isabelle
  imports Main "HOL-Library.Word"
begin

section \<open>msUsingFibers: a fiber-based file copy\<close>

text \<open>
  The program copies a source file to a destination file with two fibers, a read fiber
  and a write fiber, which hand control to each other with \<open>SwitchToFiber\<close> and share
  one buffer. The embedding keeps the C names. A fiber function runs from the point where
  it was last suspended to its next \<open>SwitchToFiber\<close>; the point of suspension (with the
  local variable \<open>fds\<close> of the suspended frame) is kept in the state.
  Console output (\<open>printf\<close>, \<open>DisplayFiberInfo\<close>) changes none of the modelled variables
  and is left out; like every call that succeeds, it is taken to leave the thread's
  last-error code as it is.
\<close>

subsection \<open>Data\<close>

type_synonym dword = "32 word"
type_synonym byte = "8 word"

text \<open>The indices into \<open>g_lpFiber\<close> and \<open>fs\<close>.\<close>

datatype fiber = PRIMARY_FIBER | READ_FIBER | WRITE_FIBER

text \<open>The handles \<open>CreateFile\<close> can return in this program.\<close>

datatype handle = INVALID_HANDLE_VALUE | SourceHandle | DestHandle

record FIBERDATASTRUCT =
  dwParameter :: dword
  dwFiberResultCode :: dword
  hFile :: handle
  dwBytesProcessed :: dword

definition RTN_OK :: int where "RTN_OK = 0"
definition RTN_USAGE :: int where "RTN_USAGE = 1"
definition RTN_ERROR :: int where "RTN_ERROR = 13"

definition BUFFER_SIZE :: nat where "BUFFER_SIZE = 32768"

definition ERROR_SUCCESS :: dword where "ERROR_SUCCESS = 0"
definition ERROR_ACCESS_DENIED :: dword where "ERROR_ACCESS_DENIED = 5"
definition ERROR_INVALID_HANDLE :: dword where "ERROR_INVALID_HANDLE = 6"

subsection \<open>The two streams\<close>

text \<open>
  \<open>ReadFile\<close> and \<open>WriteFile\<close> belong to the operating system. A stream is its data
  and a script of what the device does at the next calls: fail with an error code, or
  transfer at most so many bytes. When the script is used up the device transfers all it
  is asked for. A read of a stream that still has data delivers at least one byte: zero
  bytes are reported only at the end of the stream.
\<close>

datatype io_event = Fails dword | AtMost nat

datatype io_result = Failed dword | Transferred nat

record in_stream =
  unread :: "byte list"
  rscript :: "io_event list"

record out_stream =
  written :: "byte list"
  wscript :: "io_event list"

definition deliver :: "in_stream \<Rightarrow> nat \<Rightarrow> io_event list \<Rightarrow> io_result \<times> byte list \<times> in_stream" where
  "deliver f k rs =
     (Transferred (length (take k (unread f))), take k (unread f),
      \<lparr>unread = drop k (unread f), rscript = rs\<rparr>)"

definition device_read :: "in_stream \<Rightarrow> nat \<Rightarrow> io_result \<times> byte list \<times> in_stream" where
  "device_read f n =
     (case rscript f of
        [] \<Rightarrow> deliver f n []
      | Fails e # rs \<Rightarrow> (Failed e, [], f\<lparr>rscript := rs\<rparr>)
      | AtMost m # rs \<Rightarrow> deliver f (min n (max 1 m)) rs)"

definition accept :: "out_stream \<Rightarrow> byte list \<Rightarrow> io_event list \<Rightarrow> io_result \<times> out_stream" where
  "accept f bs ws = (Transferred (length bs), \<lparr>written = written f @ bs, wscript = ws\<rparr>)"

definition device_write :: "out_stream \<Rightarrow> byte list \<Rightarrow> io_result \<times> out_stream" where
  "device_write f bs =
     (case wscript f of
        [] \<Rightarrow> accept f bs []
      | Fails e # ws \<Rightarrow> (Failed e, f\<lparr>wscript := ws\<rparr>)
      | AtMost m # ws \<Rightarrow> accept f (take m bs) ws)"

subsection \<open>The state\<close>

text \<open>
  Where a fiber continues when it is switched to: at its entry, inside its loop after the
  \<open>SwitchToFiber\<close> to its partner (lines 210 and 257), or after its last
  \<open>SwitchToFiber\<close> to the primary fiber (lines 218 and 264), where the function returns.
\<close>

datatype resume = AtEntry | InLoop fiber | AfterLast fiber

text \<open>What happened, in order: the calls of the three system functions.\<close>

datatype event =
    Switched fiber fiber
  | ReadDone io_result
  | WriteDone nat io_result

record state =
  fs :: "fiber \<Rightarrow> FIBERDATASTRUCT"
  fiber_data :: "fiber \<Rightarrow> fiber option"
  g_lpBuffer :: "byte list"
  g_dwBytesRead :: dword
  LastError :: dword
  source :: in_stream
  destination :: out_stream
  running :: "fiber option"
  read_pc :: resume
  write_pc :: resume
  trace :: "event list"

subsection \<open>The system calls\<close>

definition GetLastError :: "state \<Rightarrow> dword" where
  "GetLastError s = LastError s"

definition GetCurrentFiber :: "state \<Rightarrow> fiber" where
  "GetCurrentFiber s = (case running s of Some f \<Rightarrow> f | None \<Rightarrow> PRIMARY_FIBER)"

text \<open>\<open>SwitchToFiber(g_lpFiber[f])\<close>, called by the running fiber.\<close>

definition SwitchToFiber :: "fiber \<Rightarrow> state \<Rightarrow> state" where
  "SwitchToFiber f s =
     s\<lparr>running := Some f, trace := trace s @ [Switched (GetCurrentFiber s) f]\<rparr>"

text \<open>A fiber function that returns ends the thread.\<close>

definition ExitThread :: "state \<Rightarrow> state" where
  "ExitThread s = s\<lparr>running := None\<rparr>"

definition bad_handle :: "handle \<Rightarrow> dword" where
  "bad_handle h = (if h = INVALID_HANDLE_VALUE then ERROR_INVALID_HANDLE else ERROR_ACCESS_DENIED)"

text \<open>
  \<open>ReadFile(h, g_lpBuffer, n, &g_dwBytesRead, NULL)\<close>. The byte count is set to zero
  before anything else; a call that fails sets the last-error code, a call that succeeds
  leaves it as it is.
\<close>

definition ReadFile :: "handle \<Rightarrow> nat \<Rightarrow> state \<Rightarrow> bool \<times> state" where
  "ReadFile h n s =
     (if h \<noteq> SourceHandle then
        (False, s\<lparr>g_dwBytesRead := 0, LastError := bad_handle h,
                  trace := trace s @ [ReadDone (Failed (bad_handle h))]\<rparr>)
      else case device_read (source s) n of
        (Failed e, bs, f) \<Rightarrow>
          (False, s\<lparr>g_dwBytesRead := 0, LastError := e, source := f,
                    trace := trace s @ [ReadDone (Failed e)]\<rparr>)
      | (Transferred k, bs, f) \<Rightarrow>
          (True, s\<lparr>g_lpBuffer := bs @ drop k (g_lpBuffer s), g_dwBytesRead := of_nat k,
                   source := f, trace := trace s @ [ReadDone (Transferred k)]\<rparr>))"

text \<open>\<open>WriteFile(h, g_lpBuffer, n, &dwBytesWritten, NULL)\<close>; the second component is
  \<open>dwBytesWritten\<close>.\<close>

definition WriteFile :: "handle \<Rightarrow> nat \<Rightarrow> state \<Rightarrow> bool \<times> dword \<times> state" where
  "WriteFile h n s =
     (if h \<noteq> DestHandle then
        (False, 0, s\<lparr>LastError := bad_handle h,
                     trace := trace s @ [WriteDone n (Failed (bad_handle h))]\<rparr>)
      else case device_write (destination s) (take n (g_lpBuffer s)) of
        (Failed e, f) \<Rightarrow>
          (False, 0, s\<lparr>LastError := e, destination := f,
                       trace := trace s @ [WriteDone n (Failed e)]\<rparr>)
      | (Transferred k, f) \<Rightarrow>
          (True, of_nat k, s\<lparr>destination := f,
                             trace := trace s @ [WriteDone n (Transferred k)]\<rparr>))"

subsection \<open>The fiber functions\<close>

definition set_BytesProcessed :: "fiber \<Rightarrow> dword \<Rightarrow> state \<Rightarrow> state" where
  "set_BytesProcessed fds v s = s\<lparr>fs := (fs s)(fds := (fs s fds)\<lparr>dwBytesProcessed := v\<rparr>)\<rparr>"

definition set_ResultCode :: "fiber \<Rightarrow> dword \<Rightarrow> state \<Rightarrow> state" where
  "set_ResultCode fds v s = s\<lparr>fs := (fs s)(fds := (fs s fds)\<lparr>dwFiberResultCode := v\<rparr>)\<rparr>"

text \<open>Lines 214 to 218: after the loop of the read fiber.\<close>

definition read_last :: "fiber \<Rightarrow> state \<Rightarrow> state" where
  "read_last fds s =
     SwitchToFiber PRIMARY_FIBER
       ((set_ResultCode fds (GetLastError s) s)\<lparr>read_pc := AfterLast fds\<rparr>)"

text \<open>Lines 195 to 211: the loop of the read fiber, from its head to the next switch.\<close>

definition read_loop :: "fiber \<Rightarrow> state \<Rightarrow> state" where
  "read_loop fds s =
     (let (ok, s1) = ReadFile (hFile (fs s fds)) BUFFER_SIZE s in
      if \<not> ok then read_last fds s1
      else if g_dwBytesRead s1 = 0 then read_last fds s1
      else SwitchToFiber WRITE_FIBER
             ((set_BytesProcessed fds
                 (dwBytesProcessed (fs s1 fds) + g_dwBytesRead s1) s1)
              \<lparr>read_pc := InLoop fds\<rparr>))"

definition ReadFiberFunc :: "fiber option \<Rightarrow> state \<Rightarrow> state" where
  "ReadFiberFunc lpParameter s =
     (case read_pc s of
        AtEntry \<Rightarrow>
          (case lpParameter of
             None \<Rightarrow> ExitThread s
           | Some fds \<Rightarrow> read_loop fds (set_BytesProcessed fds 0 s))
      | InLoop fds \<Rightarrow> read_loop fds s
      | AfterLast fds \<Rightarrow> ExitThread s)"

text \<open>Lines 260 to 264: after the loop of the write fiber.\<close>

definition write_last :: "fiber \<Rightarrow> state \<Rightarrow> state" where
  "write_last fds s =
     SwitchToFiber PRIMARY_FIBER
       ((set_ResultCode fds (GetLastError s) s)\<lparr>write_pc := AfterLast fds\<rparr>)"

text \<open>Lines 243 to 258: the loop of the write fiber, from its head to the next switch.\<close>

definition write_loop :: "fiber \<Rightarrow> state \<Rightarrow> state" where
  "write_loop fds s =
     (let (ok, dwBytesWritten, s1) = WriteFile (hFile (fs s fds)) (unat (g_dwBytesRead s)) s in
      if \<not> ok then write_last fds s1
      else SwitchToFiber READ_FIBER
             ((set_BytesProcessed fds (dwBytesProcessed (fs s1 fds) + dwBytesWritten) s1)
              \<lparr>write_pc := InLoop fds\<rparr>))"

definition WriteFiberFunc :: "fiber option \<Rightarrow> state \<Rightarrow> state" where
  "WriteFiberFunc lpParameter s =
     (case write_pc s of
        AtEntry \<Rightarrow>
          (case lpParameter of
             None \<Rightarrow> ExitThread s
           | Some fds \<Rightarrow>
               write_loop fds (set_ResultCode fds ERROR_SUCCESS (set_BytesProcessed fds 0 s)))
      | InLoop fds \<Rightarrow> write_loop fds s
      | AfterLast fds \<Rightarrow> ExitThread s)"

subsection \<open>Running the fibers\<close>

text \<open>The fiber that was switched to runs up to its next switch.\<close>

definition step :: "state \<Rightarrow> state" where
  "step s =
     (case running s of
        Some READ_FIBER \<Rightarrow> ReadFiberFunc (fiber_data s READ_FIBER) s
      | Some WRITE_FIBER \<Rightarrow> WriteFiberFunc (fiber_data s WRITE_FIBER) s
      | _ \<Rightarrow> s)"

definition worker_turn :: "state \<Rightarrow> bool" where
  "worker_turn s = (running s = Some READ_FIBER \<or> running s = Some WRITE_FIBER)"

definition turns_left :: "state \<Rightarrow> nat" where
  "turns_left s =
     (case running s of
        Some READ_FIBER \<Rightarrow> 2 * length (unread (source s)) + 1
      | Some WRITE_FIBER \<Rightarrow> 2 * length (unread (source s)) + 2
      | _ \<Rightarrow> 0)"

text \<open>
  The fibers run in turn until one of them switches to the primary fiber or the thread
  ends. Every turn of the read fiber that goes on to the write fiber has taken at least
  one byte off the source, so this comes to an end.
\<close>

function run :: "state \<Rightarrow> state" where
  "run s = (if worker_turn s then run (step s) else s)"
  by pat_completeness auto
termination run
proof (relation "measure turns_left")
  show "wf (measure turns_left)" by simp
next
  fix s
  assume turn: "worker_turn s"
  have rd: "running s1 = running s0 \<and>
      (ok \<longrightarrow> g_dwBytesRead s1 \<noteq> 0 \<longrightarrow>
         length (unread (source s1)) < length (unread (source s0)))"
    if "ReadFile h n s0 = (ok, s1)" for h n s0 ok s1
  proof -
    have "length (drop k xs) < length xs" if "(of_nat (length (take k xs)) :: dword) \<noteq> 0"
      for k and xs :: "byte list"
    proof -
      from that have "length (take k xs) \<noteq> 0" by (intro notI) simp
      then show ?thesis by (cases xs) auto
    qed
    with that show ?thesis
      by (auto simp: ReadFile_def device_read_def deliver_def
          split: if_splits list.splits io_event.splits)
  qed
  have wr: "running s1 = running s0 \<and> source s1 = source s0"
    if "WriteFile h n s0 = (ok, w, s1)" for h n s0 ok w s1
    using that
    by (auto simp: WriteFile_def split: if_splits prod.splits io_result.splits)
  have rl: "running (read_loop fds s0) = Some PRIMARY_FIBER \<or>
      running (read_loop fds s0) = Some WRITE_FIBER \<and>
      length (unread (source (read_loop fds s0))) < length (unread (source s0))" for fds s0
  proof (cases "ReadFile (hFile (fs s0 fds)) BUFFER_SIZE s0")
    case (Pair ok s1)
    with rd[OF Pair] show ?thesis
      by (auto simp: read_loop_def read_last_def SwitchToFiber_def set_BytesProcessed_def
          set_ResultCode_def)
  qed
  have wl: "(running (write_loop fds s0) = Some PRIMARY_FIBER \<or>
      running (write_loop fds s0) = Some READ_FIBER) \<and>
      source (write_loop fds s0) = source s0" for fds s0
  proof (cases "WriteFile (hFile (fs s0 fds)) (unat (g_dwBytesRead s0)) s0")
    case (fields ok w s1)
    with wr[OF fields] show ?thesis
      by (auto simp: write_loop_def write_last_def SwitchToFiber_def set_BytesProcessed_def
          set_ResultCode_def)
  qed
  have rs: "turns_left (read_loop fds s0) < turns_left s"
    if "running s = Some READ_FIBER" and "source s0 = source s" for fds s0
    using rl[of fds s0] that by (auto simp: turns_left_def)
  have ws: "turns_left (write_loop fds s0) < turns_left s"
    if "running s = Some WRITE_FIBER" and "source s0 = source s" for fds s0
    using wl[of fds s0] that by (auto simp: turns_left_def)
  have ex: "turns_left (ExitThread s) < turns_left s"
    using turn by (auto simp: turns_left_def ExitThread_def worker_turn_def)
  from turn consider "running s = Some READ_FIBER" | "running s = Some WRITE_FIBER"
    by (auto simp: worker_turn_def)
  then have "turns_left (step s) < turns_left s"
  proof cases
    case 1
    then have "step s = ReadFiberFunc (fiber_data s READ_FIBER) s"
      by (simp add: step_def)
    with 1 rs ex show ?thesis
      by (simp add: ReadFiberFunc_def set_BytesProcessed_def
          split: resume.splits option.splits)
  next
    case 2
    then have "step s = WriteFiberFunc (fiber_data s WRITE_FIBER) s"
      by (simp add: step_def)
    with 2 ws ex show ?thesis
      by (simp add: WriteFiberFunc_def set_BytesProcessed_def set_ResultCode_def
          split: resume.splits option.splits)
  qed
  then show "(step s, s) \<in> measure turns_left" by simp
qed

declare run.simps [simp del]

subsection \<open>The primary fiber\<close>

text \<open>
  What \<open>_tmain\<close> gets from outside: its argument count, the two blocks \<open>HeapAlloc\<close> returns
  (\<open>None\<close> for \<open>NULL\<close>; the memory of a block is not initialised, so its contents are
  whatever the heap held), the two files \<open>CreateFile\<close> opens (\<open>None\<close> for
  \<open>INVALID_HANDLE_VALUE\<close>; the destination is created new, hence empty), whether
  \<open>ConvertThreadToFiber\<close> and the two calls of \<open>CreateFiber\<close> succeed, and the last-error
  code of the thread when the fibers start.
\<close>

record environment =
  argc :: int
  heap_fs :: "(fiber \<Rightarrow> FIBERDATASTRUCT) option"
  heap_buffer :: "byte list option"
  source_file :: "in_stream option"
  dest_file :: "io_event list option"
  convert_thread :: bool
  create_read_fiber :: bool
  create_write_fiber :: bool
  thread_last_error :: dword

text \<open>The array \<open>fs\<close> when \<open>CreateFiber\<close> is called for the read fiber (line 131): the two
  handles are stored and the block of the primary fiber is initialised.\<close>

definition fs_at_create_read :: "(fiber \<Rightarrow> FIBERDATASTRUCT) \<Rightarrow> fiber \<Rightarrow> FIBERDATASTRUCT" where
  "fs_at_create_read fs0 =
     fs0(READ_FIBER := (fs0 READ_FIBER)\<lparr>hFile := SourceHandle\<rparr>,
         WRITE_FIBER := (fs0 WRITE_FIBER)\<lparr>hFile := DestHandle\<rparr>,
         PRIMARY_FIBER := (fs0 PRIMARY_FIBER)
           \<lparr>dwParameter := 0, dwFiberResultCode := 0, hFile := INVALID_HANDLE_VALUE\<rparr>)"

text \<open>When \<open>CreateFiber\<close> is called for the write fiber (line 141).\<close>

definition fs_at_create_write :: "(fiber \<Rightarrow> FIBERDATASTRUCT) \<Rightarrow> fiber \<Rightarrow> FIBERDATASTRUCT" where
  "fs_at_create_write fs0 =
     (fs_at_create_read fs0)
       (READ_FIBER := (fs_at_create_read fs0 READ_FIBER)\<lparr>dwParameter := 0x12345678\<rparr>)"

text \<open>When the primary fiber switches to the read fiber (line 151).\<close>

definition fs_at_switch :: "(fiber \<Rightarrow> FIBERDATASTRUCT) \<Rightarrow> fiber \<Rightarrow> FIBERDATASTRUCT" where
  "fs_at_switch fs0 =
     (fs_at_create_write fs0)
       (WRITE_FIBER := (fs_at_create_write fs0 WRITE_FIBER)\<lparr>dwParameter := 0x54545454\<rparr>)"

text \<open>Lines 59 to 148: the return code of a failed start, or the state at line 151.\<close>

definition startup :: "environment \<Rightarrow> int + state" where
  "startup env =
     (if argc env \<noteq> 3 then Inl RTN_USAGE
      else case heap_fs env of None \<Rightarrow> Inl RTN_ERROR | Some fs0 \<Rightarrow>
       (case heap_buffer env of None \<Rightarrow> Inl RTN_ERROR | Some buf \<Rightarrow>
        (case source_file env of None \<Rightarrow> Inl RTN_ERROR | Some src \<Rightarrow>
         (case dest_file env of None \<Rightarrow> Inl RTN_ERROR | Some ws \<Rightarrow>
           if \<not> convert_thread env then Inl RTN_ERROR
           else if \<not> create_read_fiber env then Inl RTN_ERROR
           else if \<not> create_write_fiber env then Inl RTN_ERROR
           else Inr \<lparr>fs = fs_at_switch fs0, fiber_data = Some, g_lpBuffer = buf,
                     g_dwBytesRead = 0, LastError = thread_last_error env, source = src,
                     destination = \<lparr>written = [], wscript = ws\<rparr>,
                     running = Some PRIMARY_FIBER, read_pc = AtEntry, write_pc = AtEntry,
                     trace = []\<rparr>))))"

text \<open>
  \<open>_tmain\<close> returns a code, after the fibers have run if it got that far (the state is
  the one it prints the results from, lines 155 to 159), or its thread is ended by a fiber
  function that returned.
\<close>

datatype tmain_result = Returned int "state option" | ThreadEnded state

text \<open>Line 151: the primary fiber switches to the read fiber and is suspended until a
  fiber switches back to it.\<close>

definition fibers_run :: "state \<Rightarrow> state" where
  "fibers_run s0 = run (SwitchToFiber READ_FIBER s0)"

definition tmain :: "environment \<Rightarrow> tmain_result" where
  "tmain env =
     (case startup env of
        Inl rc \<Rightarrow> Returned rc None
      | Inr s0 \<Rightarrow>
          (let s = fibers_run s0 in
           if running s = Some PRIMARY_FIBER then Returned RTN_OK (Some s)
           else ThreadEnded s))"

text \<open>The two lines \<open>_tmain\<close> prints: result code and bytes processed of each worker.\<close>

definition report :: "state \<Rightarrow> (dword \<times> dword) \<times> (dword \<times> dword)" where
  "report s =
     ((dwFiberResultCode (fs s READ_FIBER), dwBytesProcessed (fs s READ_FIBER)),
      (dwFiberResultCode (fs s WRITE_FIBER), dwBytesProcessed (fs s WRITE_FIBER)))"

subsection \<open>Reading the trace\<close>

fun read_results :: "event list \<Rightarrow> io_result list" where
  "read_results [] = []"
| "read_results (ReadDone r # t) = r # read_results t"
| "read_results (_ # t) = read_results t"

fun write_results :: "event list \<Rightarrow> io_result list" where
  "write_results [] = []"
| "write_results (WriteDone n r # t) = r # write_results t"
| "write_results (_ # t) = write_results t"

fun switches :: "event list \<Rightarrow> (fiber \<times> fiber) list" where
  "switches [] = []"
| "switches (Switched f g # t) = (f, g) # switches t"
| "switches (_ # t) = switches t"

fun is_Failed :: "io_result \<Rightarrow> bool" where
  "is_Failed (Failed e) = True"
| "is_Failed (Transferred k) = False"

fun bytes_of :: "io_result \<Rightarrow> nat" where
  "bytes_of (Failed e) = 0"
| "bytes_of (Transferred k) = k"

text \<open>A write that reports success and has taken fewer bytes than it was given.\<close>

fun short_write :: "event \<Rightarrow> bool" where
  "short_write (WriteDone n (Transferred k)) = (k < n)"
| "short_write _ = False"

subsection \<open>Where the fibers stand\<close>

text \<open>
  The four situations a run of this program goes through: it is the read fiber's turn
  (at its entry, or inside its loop with the write fiber inside its own), it is the write
  fiber's turn, or control is back with the primary fiber because the read fiber made its
  last switch, or because the write fiber did.
\<close>

definition reader_turn :: "state \<Rightarrow> bool" where
  "reader_turn s \<longleftrightarrow>
     running s = Some READ_FIBER \<and>
     (read_pc s = AtEntry \<and> write_pc s = AtEntry \<or>
      read_pc s = InLoop READ_FIBER \<and> write_pc s = InLoop WRITE_FIBER)"

definition writer_turn :: "state \<Rightarrow> bool" where
  "writer_turn s \<longleftrightarrow>
     running s = Some WRITE_FIBER \<and> read_pc s = InLoop READ_FIBER \<and>
     (write_pc s = AtEntry \<or> write_pc s = InLoop WRITE_FIBER)"

definition reader_ended :: "state \<Rightarrow> bool" where
  "reader_ended s \<longleftrightarrow>
     running s = Some PRIMARY_FIBER \<and> read_pc s = AfterLast READ_FIBER \<and>
     (write_pc s = AtEntry \<or> write_pc s = InLoop WRITE_FIBER)"

definition writer_ended :: "state \<Rightarrow> bool" where
  "writer_ended s \<longleftrightarrow>
     running s = Some PRIMARY_FIBER \<and> read_pc s = InLoop READ_FIBER \<and>
     write_pc s = AfterLast WRITE_FIBER"

definition wired :: "state \<Rightarrow> bool" where
  "wired s \<longleftrightarrow>
     fiber_data s = Some \<and> hFile (fs s READ_FIBER) = SourceHandle \<and>
     hFile (fs s WRITE_FIBER) = DestHandle \<and>
     (reader_turn s \<or> writer_turn s \<or> reader_ended s \<or> writer_ended s)"

text \<open>The state in which the read fiber is entered for the first time.\<close>

definition begun :: "state \<Rightarrow> bool" where
  "begun i \<longleftrightarrow>
     wired i \<and> running i = Some READ_FIBER \<and> read_pc i = AtEntry \<and> write_pc i = AtEntry \<and>
     trace i = [Switched PRIMARY_FIBER READ_FIBER] \<and> written (destination i) = []"

text \<open>The switches of \<open>n\<close> rounds from the read fiber to the write fiber and back.\<close>

definition cycles :: "nat \<Rightarrow> (fiber \<times> fiber) list" where
  "cycles n = concat (replicate n [(READ_FIBER, WRITE_FIBER), (WRITE_FIBER, READ_FIBER)])"

text \<open>A read after which the read fiber goes on: it delivered some bytes, at most a buffer.\<close>

fun good_read :: "io_result \<Rightarrow> bool" where
  "good_read (Failed e) = False"
| "good_read (Transferred k) = (0 < k \<and> k \<le> BUFFER_SIZE)"

definition total_bytes :: "io_result list \<Rightarrow> nat" where
  "total_bytes rs = sum_list (map bytes_of rs)"

text \<open>What the trace looks like in each of the four situations.\<close>

definition trace_ok :: "state \<Rightarrow> bool" where
  "trace_ok s \<longleftrightarrow>
     (let rr = read_results (trace s); wr = write_results (trace s); sw = switches (trace s) in
      (reader_turn s \<longrightarrow>
         list_all good_read rr \<and> \<not> list_ex is_Failed wr \<and> length rr = length wr \<and>
         sw = (PRIMARY_FIBER, READ_FIBER) # cycles (length wr)) \<and>
      (writer_turn s \<longrightarrow>
         list_all good_read rr \<and> \<not> list_ex is_Failed wr \<and> length rr = Suc (length wr) \<and>
         sw = (PRIMARY_FIBER, READ_FIBER) # cycles (length wr) @ [(READ_FIBER, WRITE_FIBER)] \<and>
         unat (g_dwBytesRead s) = bytes_of (last rr) \<and>
         unat (g_dwBytesRead s) \<le> length (g_lpBuffer s)) \<and>
      (reader_ended s \<longrightarrow>
         rr \<noteq> [] \<and> list_all good_read (butlast rr) \<and>
         (is_Failed (last rr) \<or> last rr = Transferred 0) \<and>
         \<not> list_ex is_Failed wr \<and> length rr = Suc (length wr) \<and>
         sw = (PRIMARY_FIBER, READ_FIBER) # cycles (length wr) @ [(READ_FIBER, PRIMARY_FIBER)]) \<and>
      (writer_ended s \<longrightarrow>
         list_all good_read rr \<and> wr \<noteq> [] \<and> \<not> list_ex is_Failed (butlast wr) \<and>
         is_Failed (last wr) \<and> length rr = length wr \<and>
         sw = (PRIMARY_FIBER, READ_FIBER) # cycles (length wr - 1)
                @ [(READ_FIBER, WRITE_FIBER), (WRITE_FIBER, PRIMARY_FIBER)]) \<and>
      (write_pc s = AtEntry \<longleftrightarrow> wr = []) \<and> (read_pc s = AtEntry \<longleftrightarrow> rr = []))"

text \<open>What the counters and result codes hold, relative to the state \<open>i\<close> the run began in.\<close>

definition counted :: "state \<Rightarrow> state \<Rightarrow> bool" where
  "counted i s \<longleftrightarrow>
     (let rr = read_results (trace s); wr = write_results (trace s) in
      (read_pc s \<noteq> AtEntry \<longrightarrow> dwBytesProcessed (fs s READ_FIBER) = of_nat (total_bytes rr)) \<and>
      (write_pc s \<noteq> AtEntry \<longrightarrow> dwBytesProcessed (fs s WRITE_FIBER) = of_nat (total_bytes wr)) \<and>
      (write_pc s = InLoop WRITE_FIBER \<longrightarrow>
         dwFiberResultCode (fs s WRITE_FIBER) = ERROR_SUCCESS) \<and>
      (writer_ended s \<longrightarrow> last wr = Failed (dwFiberResultCode (fs s WRITE_FIBER))) \<and>
      (reader_ended s \<longrightarrow>
         dwFiberResultCode (fs s READ_FIBER) =
           (case last rr of Failed e \<Rightarrow> e | Transferred k \<Rightarrow> LastError i)) \<and>
      (reader_turn s \<or> writer_turn s \<longrightarrow> LastError s = LastError i) \<and>
      length (unread (source i)) = total_bytes rr + length (unread (source s)) \<and>
      (reader_ended s \<and> last rr = Transferred 0 \<longrightarrow> unread (source s) = []) \<and>
      length (written (destination s)) = total_bytes wr)"

text \<open>The bytes in the buffer that the write fiber has still to write.\<close>

definition pending :: "state \<Rightarrow> byte list" where
  "pending s =
     (if running s = Some WRITE_FIBER then take (unat (g_dwBytesRead s)) (g_lpBuffer s) else [])"

definition conserved :: "state \<Rightarrow> state \<Rightarrow> bool" where
  "conserved i s \<longleftrightarrow>
     (\<not> list_ex short_write (trace s) \<and> \<not> list_ex is_Failed (write_results (trace s)) \<longrightarrow>
      written (destination s) @ pending s @ unread (source s) = unread (source i))"

definition run_inv :: "state \<Rightarrow> state \<Rightarrow> bool" where
  "run_inv i s \<longleftrightarrow> wired s \<and> trace_ok s \<and> counted i s \<and> conserved i s"

subsection \<open>Observations and example runs\<close>

text \<open>A fiber has made its last switch, to the primary fiber.\<close>

fun terminal :: "resume \<Rightarrow> bool" where
  "terminal (AfterLast f) = True"
| "terminal _ = False"


text \<open>
  A start of the program in which every call of the start-up succeeds: the heap block of
  \<open>fs\<close> holds the value \<open>heap\<close> in every field, the thread's last-error code is
  \<open>le\<close>, the source file holds \<open>bs\<close> and its device follows \<open>rs\<close>, the device of the
  destination follows \<open>ws\<close>.
\<close>

definition example_heap :: "dword \<Rightarrow> fiber \<Rightarrow> FIBERDATASTRUCT" where
  "example_heap heap f =
     \<lparr>dwParameter = heap, dwFiberResultCode = heap, hFile = INVALID_HANDLE_VALUE,
      dwBytesProcessed = heap\<rparr>"

definition example_env ::
  "dword \<Rightarrow> dword \<Rightarrow> byte list \<Rightarrow> io_event list \<Rightarrow> io_event list \<Rightarrow> environment" where
  "example_env heap le bs rs ws =
     \<lparr>argc = 3,
      heap_fs = Some (example_heap heap),
      heap_buffer = Some (replicate BUFFER_SIZE 0),
      source_file = Some \<lparr>unread = bs, rscript = rs\<rparr>,
      dest_file = Some ws,
      convert_thread = True, create_read_fiber = True, create_write_fiber = True,
      thread_last_error = le\<rparr>"

subsection \<open>What one call and one turn do\<close>

lemma device_read_Transferred:
  assumes "device_read f n = (Transferred k, bs, f')"
  shows "unread f = bs @ unread f'" and "length bs = k" and "k \<le> n"
    and "0 < n \<Longrightarrow> unread f \<noteq> [] \<Longrightarrow> 0 < k"
    and "set (rscript f') \<subseteq> set (rscript f)"
  using assms
  by (auto simp: device_read_def deliver_def split: list.splits io_event.splits)

lemma device_read_Failed:
  assumes "device_read f n = (Failed e, bs, f')"
  shows "unread f' = unread f" and "Fails e \<in> set (rscript f)"
    and "set (rscript f') \<subseteq> set (rscript f)"
  using assms
  by (auto simp: device_read_def deliver_def split: list.splits io_event.splits)

lemma device_write_Transferred:
  assumes "device_write f bs = (Transferred k, f')"
  shows "written f' = written f @ take k bs" and "k \<le> length bs"
    and "set (wscript f') \<subseteq> set (wscript f)"
  using assms
  by (auto simp: device_write_def accept_def min_def split: list.splits io_event.splits)

lemma device_write_Failed:
  assumes "device_write f bs = (Failed e, f')"
  shows "written f' = written f" and "Fails e \<in> set (wscript f)"
    and "set (wscript f') \<subseteq> set (wscript f)"
  using assms
  by (auto simp: device_write_def accept_def split: list.splits io_event.splits)

lemma small_dword_zero:
  assumes "(of_nat k :: dword) = 0" and "k \<le> BUFFER_SIZE"
  shows "k = 0"
proof -
  from assms(2) have "k < 2 ^ 32" by (simp add: BUFFER_SIZE_def)
  then have "unat (of_nat k :: dword) = k" by (simp add: unat_of_nat)
  with assms(1) show ?thesis by simp
qed

lemma small_dword_unat: "k \<le> BUFFER_SIZE \<Longrightarrow> unat (of_nat k :: dword) = k"
  by (simp add: BUFFER_SIZE_def unat_of_nat)

text \<open>The read fiber's loop, from its head: the read fails, or the stream is at its end,
  or some bytes go to the buffer and the write fiber is switched to.\<close>

lemma read_loop_cases:
  assumes cur: "running s = Some cur"
  obtains
    (failed) e f where
      "read_loop fds s =
         s\<lparr>fs := (fs s)(fds := (fs s fds)\<lparr>dwFiberResultCode := e\<rparr>),
           g_dwBytesRead := 0, LastError := e, source := f, running := Some PRIMARY_FIBER,
           read_pc := AfterLast fds,
           trace := trace s @ [ReadDone (Failed e), Switched cur PRIMARY_FIBER]\<rparr>"
      "unread f = unread (source s)"
      "hFile (fs s fds) = SourceHandle \<Longrightarrow> Fails e \<in> set (rscript (source s))"
      "set (rscript f) \<subseteq> set (rscript (source s))"
  | (eof) f where
      "read_loop fds s =
         s\<lparr>fs := (fs s)(fds := (fs s fds)\<lparr>dwFiberResultCode := LastError s\<rparr>),
           g_dwBytesRead := 0, source := f, running := Some PRIMARY_FIBER,
           read_pc := AfterLast fds,
           trace := trace s @ [ReadDone (Transferred 0), Switched cur PRIMARY_FIBER]\<rparr>"
      "hFile (fs s fds) = SourceHandle" "unread (source s) = []" "unread f = []"
      "set (rscript f) \<subseteq> set (rscript (source s))"
  | (more) k bs f where
      "read_loop fds s =
         s\<lparr>fs := (fs s)(fds := (fs s fds)
                \<lparr>dwBytesProcessed := dwBytesProcessed (fs s fds) + of_nat k\<rparr>),
           g_lpBuffer := bs @ drop k (g_lpBuffer s), g_dwBytesRead := of_nat k, source := f,
           running := Some WRITE_FIBER, read_pc := InLoop fds,
           trace := trace s @ [ReadDone (Transferred k), Switched cur WRITE_FIBER]\<rparr>"
      "hFile (fs s fds) = SourceHandle" "0 < k" "k \<le> BUFFER_SIZE" "length bs = k"
      "unread (source s) = bs @ unread f"
      "set (rscript f) \<subseteq> set (rscript (source s))"
proof (cases "hFile (fs s fds) = SourceHandle")
  case False
  with cur have eq: "read_loop fds s =
      s\<lparr>fs := (fs s)(fds := (fs s fds)\<lparr>dwFiberResultCode := bad_handle (hFile (fs s fds))\<rparr>),
        g_dwBytesRead := 0, LastError := bad_handle (hFile (fs s fds)), source := source s,
        running := Some PRIMARY_FIBER, read_pc := AfterLast fds,
        trace := trace s @ [ReadDone (Failed (bad_handle (hFile (fs s fds)))),
                            Switched cur PRIMARY_FIBER]\<rparr>"
    by (simp add: read_loop_def ReadFile_def read_last_def SwitchToFiber_def
        GetCurrentFiber_def GetLastError_def set_ResultCode_def)
  show thesis by (rule failed[OF eq]) (use False in simp_all)
next
  case True
  obtain r bs f where d: "device_read (source s) BUFFER_SIZE = (r, bs, f)"
    by (cases "device_read (source s) BUFFER_SIZE") auto
  show thesis
  proof (cases r)
    case (Failed e)
    with True d cur have eq: "read_loop fds s =
        s\<lparr>fs := (fs s)(fds := (fs s fds)\<lparr>dwFiberResultCode := e\<rparr>),
          g_dwBytesRead := 0, LastError := e, source := f, running := Some PRIMARY_FIBER,
          read_pc := AfterLast fds,
          trace := trace s @ [ReadDone (Failed e), Switched cur PRIMARY_FIBER]\<rparr>"
      by (simp add: read_loop_def ReadFile_def read_last_def SwitchToFiber_def
          GetCurrentFiber_def GetLastError_def set_ResultCode_def)
    from d Failed have dd: "device_read (source s) BUFFER_SIZE = (Failed e, bs, f)"
      by simp
    show thesis by (rule failed[OF eq]) (use device_read_Failed[OF dd] in simp_all)
  next
    case (Transferred k)
    with d have dd: "device_read (source s) BUFFER_SIZE = (Transferred k, bs, f)"
      by simp
    note facts = device_read_Transferred[OF dd]
    show thesis
    proof (cases "(of_nat k :: dword) = 0")
      case zero: True
      from zero facts(3) have k0: "k = 0" by (rule small_dword_zero)
      with facts(2) have bs: "bs = []" by simp
      from facts(4) k0 have e: "unread (source s) = []"
        by (auto simp: BUFFER_SIZE_def)
      from True dd cur k0 bs have eq: "read_loop fds s =
          s\<lparr>fs := (fs s)(fds := (fs s fds)\<lparr>dwFiberResultCode := LastError s\<rparr>),
            g_dwBytesRead := 0, source := f, running := Some PRIMARY_FIBER,
            read_pc := AfterLast fds,
            trace := trace s @ [ReadDone (Transferred 0), Switched cur PRIMARY_FIBER]\<rparr>"
        by (simp add: read_loop_def ReadFile_def read_last_def SwitchToFiber_def
            GetCurrentFiber_def GetLastError_def set_ResultCode_def)
      from facts(1) e have "unread f = []" by simp
      with True e facts(5) show thesis by (intro eof[OF eq]) simp_all
    next
      case nonzero: False
      then have pos: "0 < k" by (cases k) auto
      from True dd cur nonzero have eq: "read_loop fds s =
          s\<lparr>fs := (fs s)(fds := (fs s fds)
                 \<lparr>dwBytesProcessed := dwBytesProcessed (fs s fds) + of_nat k\<rparr>),
            g_lpBuffer := bs @ drop k (g_lpBuffer s), g_dwBytesRead := of_nat k, source := f,
            running := Some WRITE_FIBER, read_pc := InLoop fds,
            trace := trace s @ [ReadDone (Transferred k), Switched cur WRITE_FIBER]\<rparr>"
        by (simp add: read_loop_def ReadFile_def SwitchToFiber_def
            GetCurrentFiber_def set_BytesProcessed_def)
      from True pos facts show thesis by (intro more[OF eq]) simp_all
    qed
  qed
qed

text \<open>The write fiber's loop, from its head: the write fails, or some of the bytes the
  read fiber left are written and the read fiber is switched to.\<close>

lemma write_loop_cases:
  assumes cur: "running s = Some cur"
  obtains
    (failed) e f where
      "write_loop fds s =
         s\<lparr>fs := (fs s)(fds := (fs s fds)\<lparr>dwFiberResultCode := e\<rparr>),
           LastError := e, destination := f, running := Some PRIMARY_FIBER,
           write_pc := AfterLast fds,
           trace := trace s @ [WriteDone (unat (g_dwBytesRead s)) (Failed e),
                               Switched cur PRIMARY_FIBER]\<rparr>"
      "written f = written (destination s)"
      "hFile (fs s fds) = DestHandle \<Longrightarrow> Fails e \<in> set (wscript (destination s))"
      "set (wscript f) \<subseteq> set (wscript (destination s))"
  | (wrote) k f where
      "write_loop fds s =
         s\<lparr>fs := (fs s)(fds := (fs s fds)
                \<lparr>dwBytesProcessed := dwBytesProcessed (fs s fds) + of_nat k\<rparr>),
           destination := f, running := Some READ_FIBER, write_pc := InLoop fds,
           trace := trace s @ [WriteDone (unat (g_dwBytesRead s)) (Transferred k),
                               Switched cur READ_FIBER]\<rparr>"
      "hFile (fs s fds) = DestHandle"
      "k \<le> length (take (unat (g_dwBytesRead s)) (g_lpBuffer s))"
      "written f = written (destination s)
         @ take k (take (unat (g_dwBytesRead s)) (g_lpBuffer s))"
      "set (wscript f) \<subseteq> set (wscript (destination s))"
proof (cases "hFile (fs s fds) = DestHandle")
  case False
  with cur have eq: "write_loop fds s =
      s\<lparr>fs := (fs s)(fds := (fs s fds)\<lparr>dwFiberResultCode := bad_handle (hFile (fs s fds))\<rparr>),
        LastError := bad_handle (hFile (fs s fds)), destination := destination s,
        running := Some PRIMARY_FIBER, write_pc := AfterLast fds,
        trace := trace s @ [WriteDone (unat (g_dwBytesRead s))
                              (Failed (bad_handle (hFile (fs s fds)))),
                            Switched cur PRIMARY_FIBER]\<rparr>"
    by (simp add: write_loop_def WriteFile_def write_last_def SwitchToFiber_def
        GetCurrentFiber_def GetLastError_def set_ResultCode_def)
  show thesis by (rule failed[OF eq]) (use False in simp_all)
next
  case True
  obtain r f where
    d: "device_write (destination s) (take (unat (g_dwBytesRead s)) (g_lpBuffer s)) = (r, f)"
    by (cases "device_write (destination s) (take (unat (g_dwBytesRead s)) (g_lpBuffer s))")
      auto
  show thesis
  proof (cases r)
    case (Failed e)
    with True d cur have eq: "write_loop fds s =
        s\<lparr>fs := (fs s)(fds := (fs s fds)\<lparr>dwFiberResultCode := e\<rparr>),
          LastError := e, destination := f, running := Some PRIMARY_FIBER,
          write_pc := AfterLast fds,
          trace := trace s @ [WriteDone (unat (g_dwBytesRead s)) (Failed e),
                              Switched cur PRIMARY_FIBER]\<rparr>"
      by (simp add: write_loop_def WriteFile_def write_last_def SwitchToFiber_def
          GetCurrentFiber_def GetLastError_def set_ResultCode_def)
    from d Failed have dd:
      "device_write (destination s) (take (unat (g_dwBytesRead s)) (g_lpBuffer s)) = (Failed e, f)"
      by simp
    show thesis by (rule failed[OF eq]) (use device_write_Failed[OF dd] in simp_all)
  next
    case (Transferred k)
    with d have dd:
      "device_write (destination s) (take (unat (g_dwBytesRead s)) (g_lpBuffer s))
         = (Transferred k, f)"
      by simp
    from True dd cur have eq: "write_loop fds s =
        s\<lparr>fs := (fs s)(fds := (fs s fds)
               \<lparr>dwBytesProcessed := dwBytesProcessed (fs s fds) + of_nat k\<rparr>),
          destination := f, running := Some READ_FIBER, write_pc := InLoop fds,
          trace := trace s @ [WriteDone (unat (g_dwBytesRead s)) (Transferred k),
                              Switched cur READ_FIBER]\<rparr>"
      by (simp add: write_loop_def WriteFile_def SwitchToFiber_def
          GetCurrentFiber_def set_BytesProcessed_def)
    from True device_write_Transferred[OF dd] show thesis by (intro wrote[OF eq]) simp_all
  qed
qed

subsection \<open>The trace, piece by piece\<close>

lemma read_results_append [simp]:
  "read_results (t @ u) = read_results t @ read_results u"
  by (induction t rule: read_results.induct) simp_all

lemma write_results_append [simp]:
  "write_results (t @ u) = write_results t @ write_results u"
  by (induction t rule: write_results.induct) simp_all

lemma switches_append [simp]: "switches (t @ u) = switches t @ switches u"
  by (induction t rule: switches.induct) simp_all

lemma total_simps [simp]:
  "total_bytes [] = 0" "total_bytes (rs @ [r]) = total_bytes rs + bytes_of r"
  by (simp_all add: total_bytes_def)

lemma cycles_Suc: "cycles (Suc n) = cycles n @ [(READ_FIBER, WRITE_FIBER), (WRITE_FIBER, READ_FIBER)]"
proof -
  have "replicate (Suc n) x = replicate n x @ [x]" for x :: "(fiber \<times> fiber) list"
    by (simp add: replicate_append_same)
  then show ?thesis unfolding cycles_def by (simp del: replicate.simps)
qed

lemma cycles_0 [simp]: "cycles 0 = []"
  by (simp add: cycles_def)

subsection \<open>Invariants of a run\<close>

lemma run_invariant:
  assumes "P s" and "\<And>t. P t \<Longrightarrow> worker_turn t \<Longrightarrow> P (step t)"
  shows "P (run s)"
  using assms(1)
proof (induction s rule: run.induct)
  case (1 s)
  show ?case
  proof (cases "worker_turn s")
    case True
    with 1 assms(2) have "P (run (step s))" by blast
    with True show ?thesis by (subst run.simps) simp
  next
    case False
    with 1 show ?thesis by (subst run.simps) simp
  qed
qed

lemma run_stops: "\<not> worker_turn (run s)"
proof (induction s rule: run.induct)
  case (1 s)
  then show ?case by (subst run.simps) simp
qed

lemma phases_exclusive:
  "reader_turn s \<Longrightarrow> \<not> writer_turn s \<and> \<not> reader_ended s \<and> \<not> writer_ended s"
  "writer_turn s \<Longrightarrow> \<not> reader_turn s \<and> \<not> reader_ended s \<and> \<not> writer_ended s"
  "reader_ended s \<Longrightarrow> \<not> reader_turn s \<and> \<not> writer_turn s \<and> \<not> writer_ended s"
  "writer_ended s \<Longrightarrow> \<not> reader_turn s \<and> \<not> writer_turn s \<and> \<not> reader_ended s"
  by (auto simp: reader_turn_def writer_turn_def reader_ended_def writer_ended_def)

lemma step_reader:
  assumes "wired s" and "reader_turn s"
  shows "step s = read_loop READ_FIBER
           (if read_pc s = AtEntry then set_BytesProcessed READ_FIBER 0 s else s)"
  using assms
  by (auto simp: wired_def reader_turn_def step_def ReadFiberFunc_def)

lemma step_writer:
  assumes "wired s" and "writer_turn s"
  shows "step s = write_loop WRITE_FIBER
           (if write_pc s = AtEntry
            then set_ResultCode WRITE_FIBER ERROR_SUCCESS (set_BytesProcessed WRITE_FIBER 0 s)
            else s)"
  using assms
  by (auto simp: wired_def writer_turn_def step_def WriteFiberFunc_def)

lemma inv_reader_step:
  assumes w: "wired s" and t: "trace_ok s" and c: "counted i s" and d: "conserved i s"
    and R: "reader_turn s"
  shows "run_inv i (step s)"
proof -
  define s1 where "s1 = (if read_pc s = AtEntry then set_BytesProcessed READ_FIBER 0 s else s)"
  have st: "step s = read_loop READ_FIBER s1"
    unfolding s1_def using w R by (rule step_reader)
  have s1: "running s1 = Some READ_FIBER" "trace s1 = trace s" "source s1 = source s"
    "destination s1 = destination s" "fiber_data s1 = fiber_data s" "LastError s1 = LastError s"
    "write_pc s1 = write_pc s" "fs s1 WRITE_FIBER = fs s WRITE_FIBER"
    "hFile (fs s1 READ_FIBER) = SourceHandle" "g_lpBuffer s1 = g_lpBuffer s"
    "dwFiberResultCode (fs s1 READ_FIBER) = dwFiberResultCode (fs s READ_FIBER)"
    using w R by (auto simp: s1_def set_BytesProcessed_def reader_turn_def wired_def)
  have bp: "dwBytesProcessed (fs s1 READ_FIBER) = of_nat (total_bytes (read_results (trace s)))"
    using t c R
    by (auto simp: s1_def set_BytesProcessed_def reader_turn_def trace_ok_def counted_def Let_def)
  have wp: "write_pc s = AtEntry \<or> write_pc s = InLoop WRITE_FIBER"
    using R by (auto simp: reader_turn_def)
  from R have nW: "running s \<noteq> Some WRITE_FIBER" by (auto simp: reader_turn_def)
  from t R have tr: "list_all good_read (read_results (trace s))"
    "\<not> list_ex is_Failed (write_results (trace s))"
    "length (read_results (trace s)) = length (write_results (trace s))"
    "switches (trace s) = (PRIMARY_FIBER, READ_FIBER) # cycles (length (write_results (trace s)))"
    "write_pc s = AtEntry \<longleftrightarrow> write_results (trace s) = []"
    by (auto simp: trace_ok_def Let_def)
  from c R have cn: "write_pc s \<noteq> AtEntry \<longrightarrow>
      dwBytesProcessed (fs s WRITE_FIBER) = of_nat (total_bytes (write_results (trace s)))"
    "write_pc s = InLoop WRITE_FIBER \<longrightarrow> dwFiberResultCode (fs s WRITE_FIBER) = ERROR_SUCCESS"
    "LastError s = LastError i"
    "length (unread (source i)) = total_bytes (read_results (trace s)) + length (unread (source s))"
    "length (written (destination s)) = total_bytes (write_results (trace s))"
    by (auto simp: counted_def Let_def)
  from d nW have dd: "\<not> list_ex short_write (trace s) \<longrightarrow>
      written (destination s) @ unread (source s) = unread (source i)"
    using tr(2) by (simp add: conserved_def pending_def)
  from s1(1) show ?thesis
  proof (cases rule: read_loop_cases[where fds = READ_FIBER])
    case (failed e f)
    have ph: "reader_ended (step s)"
      using wp by (simp add: st failed(1) reader_ended_def s1)
    note np = phases_exclusive(3)[OF ph]
    have "wired (step s)"
      using w ph by (simp add: wired_def st failed(1) s1)
    moreover have "trace_ok (step s)"
      using ph np tr by (simp add: trace_ok_def Let_def) (simp add: st failed(1) s1)
    moreover have "counted i (step s)"
      using ph np cn failed(2) bp
      by (simp add: counted_def Let_def) (simp add: st failed(1) s1)
    moreover have "conserved i (step s)"
      using dd failed(2) by (simp add: conserved_def pending_def st failed(1) s1)
    ultimately show ?thesis by (simp add: run_inv_def)
  next
    case (eof f)
    have ph: "reader_ended (step s)"
      using wp by (simp add: st eof(1) reader_ended_def s1)
    note np = phases_exclusive(3)[OF ph]
    have "wired (step s)"
      using w ph by (simp add: wired_def st eof(1) s1)
    moreover have "trace_ok (step s)"
      using ph np tr by (simp add: trace_ok_def Let_def) (simp add: st eof(1) s1)
    moreover have "counted i (step s)"
      using ph np cn eof(3,4) s1(3) bp
      by (simp add: counted_def Let_def) (simp add: st eof(1) s1)
    moreover have "conserved i (step s)"
      using dd eof(3,4) s1(3) by (simp add: conserved_def pending_def st eof(1) s1)
    ultimately show ?thesis by (simp add: run_inv_def)
  next
    case (more k bs f)
    have ph: "writer_turn (step s)"
      using wp by (simp add: st more(1) writer_turn_def s1)
    note np = phases_exclusive(2)[OF ph]
    have un: "unat (of_nat k :: dword) = k"
      using more(4) by (rule small_dword_unat)
    have "wired (step s)"
      using w ph by (simp add: wired_def st more(1) s1)
    moreover have "trace_ok (step s)"
      using ph np tr more(3,4,5) un
      by (simp add: trace_ok_def Let_def) (simp add: st more(1) s1)
    moreover have "counted i (step s)"
      using ph np cn more(5,6) s1(3) bp
      by (simp add: counted_def Let_def) (simp add: st more(1) s1)
    moreover have "conserved i (step s)"
      using dd more(5,6) s1(3) un
      by (simp add: conserved_def pending_def st more(1) s1)
    ultimately show ?thesis by (simp add: run_inv_def)
  qed
qed


lemma inv_writer_step:
  assumes w: "wired s" and t: "trace_ok s" and c: "counted i s" and d: "conserved i s"
    and W: "writer_turn s"
  shows "run_inv i (step s)"
proof -
  define s1 where "s1 = (if write_pc s = AtEntry
      then set_ResultCode WRITE_FIBER ERROR_SUCCESS (set_BytesProcessed WRITE_FIBER 0 s) else s)"
  have st: "step s = write_loop WRITE_FIBER s1"
    unfolding s1_def using w W by (rule step_writer)
  have s1: "running s1 = Some WRITE_FIBER" "trace s1 = trace s" "source s1 = source s"
    "destination s1 = destination s" "fiber_data s1 = fiber_data s" "LastError s1 = LastError s"
    "read_pc s1 = read_pc s" "fs s1 READ_FIBER = fs s READ_FIBER"
    "hFile (fs s1 WRITE_FIBER) = DestHandle" "g_lpBuffer s1 = g_lpBuffer s"
    "g_dwBytesRead s1 = g_dwBytesRead s" "read_pc s = InLoop READ_FIBER"
    using w W by (auto simp: s1_def set_BytesProcessed_def set_ResultCode_def writer_turn_def
        wired_def)
  from t W have tr: "list_all good_read (read_results (trace s))"
    "\<not> list_ex is_Failed (write_results (trace s))"
    "length (read_results (trace s)) = Suc (length (write_results (trace s)))"
    "switches (trace s) = (PRIMARY_FIBER, READ_FIBER) # cycles (length (write_results (trace s)))
       @ [(READ_FIBER, WRITE_FIBER)]"
    "unat (g_dwBytesRead s) = bytes_of (last (read_results (trace s)))"
    "unat (g_dwBytesRead s) \<le> length (g_lpBuffer s)"
    "write_pc s = AtEntry \<longleftrightarrow> write_results (trace s) = []"
    by (auto simp: trace_ok_def Let_def)
  have bp: "dwBytesProcessed (fs s1 WRITE_FIBER) = of_nat (total_bytes (write_results (trace s)))"
    using tr(7) c W
    by (auto simp: s1_def set_BytesProcessed_def set_ResultCode_def counted_def Let_def)
  have rc: "dwFiberResultCode (fs s1 WRITE_FIBER) = ERROR_SUCCESS"
    using c W
    by (auto simp: s1_def set_BytesProcessed_def set_ResultCode_def counted_def Let_def
        writer_turn_def)
  from c W s1(12) have cn:
    "dwBytesProcessed (fs s READ_FIBER) = of_nat (total_bytes (read_results (trace s)))"
    "LastError s = LastError i"
    "length (unread (source i)) = total_bytes (read_results (trace s)) + length (unread (source s))"
    "length (written (destination s)) = total_bytes (write_results (trace s))"
    by (auto simp: counted_def Let_def)
  from W have rW: "running s = Some WRITE_FIBER" by (simp add: writer_turn_def)
  from d rW tr(2) have dd: "\<not> list_ex short_write (trace s) \<longrightarrow>
      written (destination s) @ take (unat (g_dwBytesRead s)) (g_lpBuffer s) @ unread (source s)
        = unread (source i)"
    by (simp add: conserved_def pending_def)
  from tr(1,3) have rne: "read_results (trace s) \<noteq> []" by auto
  from s1(1) show ?thesis
  proof (cases rule: write_loop_cases[where fds = WRITE_FIBER])
    case (failed e f)
    have ph: "writer_ended (step s)"
      by (simp add: st failed(1) writer_ended_def s1)
    note np = phases_exclusive(4)[OF ph]
    have "wired (step s)"
      using w ph by (simp add: wired_def st failed(1) s1)
    moreover have "trace_ok (step s)"
      using ph np tr rne by (simp add: trace_ok_def Let_def) (simp add: st failed(1) s1)
    moreover have "counted i (step s)"
      using ph np cn failed(2) bp
      by (simp add: counted_def Let_def) (simp add: st failed(1) s1)
    moreover have "conserved i (step s)"
      by (simp add: conserved_def st failed(1) s1)
    ultimately show ?thesis by (simp add: run_inv_def)
  next
    case (wrote k f)
    have ph: "reader_turn (step s)"
      by (simp add: st wrote(1) reader_turn_def s1)
    note np = phases_exclusive(1)[OF ph]
    from wrote(3) tr(6) have kn: "k \<le> unat (g_dwBytesRead s)"
      by (simp add: s1)
    have "wired (step s)"
      using w ph by (simp add: wired_def st wrote(1) s1)
    moreover have "trace_ok (step s)"
      using ph np tr rne
      by (simp add: trace_ok_def Let_def) (simp add: st wrote(1) s1 cycles_Suc)
    moreover have "counted i (step s)"
      using ph np cn bp rc wrote(4) kn tr(6)
      by (simp add: counted_def Let_def) (simp add: st wrote(1) s1)
    moreover have "conserved i (step s)"
    proof -
      have "written f @ unread (source s) = unread (source i)"
        if "\<not> list_ex short_write (trace s)" and "\<not> k < unat (g_dwBytesRead s)"
      proof -
        from that(2) kn have "k = unat (g_dwBytesRead s)" by simp
        with wrote(4) dd that(1) show ?thesis by (simp add: s1)
      qed
      then show ?thesis
        by (simp add: conserved_def pending_def st wrote(1) s1)
    qed
    ultimately show ?thesis by (simp add: run_inv_def)
  qed
qed

lemma inv_step:
  assumes "run_inv i s" and "worker_turn s"
  shows "run_inv i (step s)"
proof -
  from assms have "reader_turn s \<or> writer_turn s"
    by (auto simp: run_inv_def wired_def worker_turn_def reader_ended_def writer_ended_def)
  moreover from assms(1) have "wired s" "trace_ok s" "counted i s" "conserved i s"
    by (simp_all add: run_inv_def)
  ultimately show ?thesis
    using inv_reader_step inv_writer_step by blast
qed

lemma inv_begun:
  assumes "begun i"
  shows "run_inv i i"
proof -
  from assms have ph: "reader_turn i"
    by (simp add: begun_def reader_turn_def)
  note np = phases_exclusive(1)[OF ph]
  from assms ph np show ?thesis
    by (simp add: run_inv_def begun_def trace_ok_def counted_def conserved_def pending_def Let_def)
qed

text \<open>When the fibers have run, control is with the primary fiber, and one of the two
  worker fibers has made its last switch.\<close>

lemma inv_run:
  assumes "begun i"
  shows "run_inv i (run i)" and "reader_ended (run i) \<or> writer_ended (run i)"
proof -
  show i: "run_inv i (run i)"
    by (rule run_invariant[where P = "run_inv i"]) (simp_all add: inv_begun assms inv_step)
  from run_stops[of i] i show "reader_ended (run i) \<or> writer_ended (run i)"
    by (auto simp: run_inv_def wired_def worker_turn_def reader_turn_def writer_turn_def)
qed

subsection \<open>From the start of the program to the return of control\<close>

lemma startup_Inr:
  assumes "startup env = Inr s0"
  obtains fs0 buf src ws where
    "heap_fs env = Some fs0" "heap_buffer env = Some buf" "source_file env = Some src"
    "dest_file env = Some ws"
    "s0 = \<lparr>fs = fs_at_switch fs0, fiber_data = Some, g_lpBuffer = buf, g_dwBytesRead = 0,
           LastError = thread_last_error env, source = src,
           destination = \<lparr>written = [], wscript = ws\<rparr>, running = Some PRIMARY_FIBER,
           read_pc = AtEntry, write_pc = AtEntry, trace = []\<rparr>"
  using assms
  by (auto simp: startup_def split: if_splits option.splits)

lemma startup_begun:
  assumes "startup env = Inr s0"
  shows "begun (SwitchToFiber READ_FIBER s0)"
    and "LastError (SwitchToFiber READ_FIBER s0) = thread_last_error env"
    and "source_file env = Some (source (SwitchToFiber READ_FIBER s0))"
    and "wscript (destination (SwitchToFiber READ_FIBER s0)) = the (dest_file env)"
  using assms
  by (auto elim!: startup_Inr
      simp: begun_def wired_def reader_turn_def SwitchToFiber_def GetCurrentFiber_def
        fs_at_switch_def fs_at_create_write_def fs_at_create_read_def)

lemma tmain_Returned:
  assumes "tmain env = Returned rc (Some s)"
  obtains s0 where "startup env = Inr s0" "s = run (SwitchToFiber READ_FIBER s0)"
  using assms
  by (auto simp: tmain_def fibers_run_def Let_def split: sum.splits if_splits)

text \<open>What is known of the state \<open>_tmain\<close> prints its results from.\<close>

lemma tmain_final:
  assumes "tmain env = Returned rc (Some s)"
  obtains i where "begun i" "s = run i" "run_inv i s" "reader_ended s \<or> writer_ended s"
    "LastError i = thread_last_error env" "source_file env = Some (source i)"
proof -
  from assms obtain s0 where s0: "startup env = Inr s0" "s = run (SwitchToFiber READ_FIBER s0)"
    by (rule tmain_Returned)
  let ?i = "SwitchToFiber READ_FIBER s0"
  note b = startup_begun[OF s0(1)]
  from inv_run[OF b(1)] s0(2) have "run_inv ?i s" "reader_ended s \<or> writer_ended s"
    by simp_all
  with b s0(2) show thesis by (intro that[of ?i]) simp_all
qed

text \<open>Once started, the program comes back to the primary fiber: no fiber function
  returns, and the run of the fibers ends.\<close>

lemma tmain_returns:
  assumes "startup env = Inr s0"
  shows "tmain env = Returned RTN_OK (Some (fibers_run s0))"
proof -
  from inv_run(2)[OF startup_begun(1)[OF assms]]
  have "running (fibers_run s0) = Some PRIMARY_FIBER"
    by (auto simp: fibers_run_def reader_ended_def writer_ended_def)
  with assms show ?thesis by (simp add: tmain_def Let_def)
qed

lemma ended_by_reader:
  assumes "run_inv i s" and "reader_ended s \<or> writer_ended s"
    and "\<not> list_ex is_Failed (write_results (trace s))"
  shows "reader_ended s"
proof (rule ccontr)
  assume "\<not> reader_ended s"
  with assms(2) have w: "writer_ended s" by simp
  with assms(1) have "write_results (trace s) \<noteq> []" "is_Failed (last (write_results (trace s)))"
    by (simp_all add: run_inv_def trace_ok_def Let_def)
  then have "list_ex is_Failed (write_results (trace s))"
    by (auto simp: list_ex_iff intro: bexI[of _ "last (write_results (trace s))"])
  with assms(3) show False by simp
qed

lemma ended_at_eof:
  assumes "run_inv i s" and "reader_ended s"
    and "\<not> list_ex is_Failed (read_results (trace s))"
  shows "last (read_results (trace s)) = Transferred 0" and "unread (source s) = []"
proof -
  from assms(1,2) have ne: "read_results (trace s) \<noteq> []"
    and l: "is_Failed (last (read_results (trace s))) \<or> last (read_results (trace s)) = Transferred 0"
    by (simp_all add: run_inv_def trace_ok_def Let_def)
  from ne assms(3) have "\<not> is_Failed (last (read_results (trace s)))"
    by (auto simp: list_ex_iff)
  with l show "last (read_results (trace s)) = Transferred 0" by simp
  with assms(1,2) show "unread (source s) = []"
    by (simp add: run_inv_def counted_def Let_def)
qed

subsection \<open>What a fiber function changes in \<open>fs\<close>\<close>

lemma ReadFile_fs: "ReadFile h n s = (ok, s1) \<Longrightarrow> fs s1 = fs s"
  by (auto simp: ReadFile_def split: if_splits prod.splits io_result.splits)

lemma WriteFile_fs: "WriteFile h n s = (ok, k, s1) \<Longrightarrow> fs s1 = fs s"
  by (auto simp: WriteFile_def split: if_splits prod.splits io_result.splits)

lemma read_loop_frame:
  "dwParameter (fs (read_loop fds s) g) = dwParameter (fs s g) \<and>
   hFile (fs (read_loop fds s) g) = hFile (fs s g) \<and>
   (g \<noteq> fds \<longrightarrow> fs (read_loop fds s) g = fs s g)"
proof -
  obtain ok s1 where r: "ReadFile (hFile (fs s fds)) BUFFER_SIZE s = (ok, s1)"
    by (cases "ReadFile (hFile (fs s fds)) BUFFER_SIZE s") auto
  from ReadFile_fs[OF r] r show ?thesis
    by (simp add: read_loop_def read_last_def SwitchToFiber_def set_BytesProcessed_def
        set_ResultCode_def)
qed

lemma write_loop_frame:
  "dwParameter (fs (write_loop fds s) g) = dwParameter (fs s g) \<and>
   hFile (fs (write_loop fds s) g) = hFile (fs s g) \<and>
   (g \<noteq> fds \<longrightarrow> fs (write_loop fds s) g = fs s g)"
proof -
  obtain ok k s1 where r: "WriteFile (hFile (fs s fds)) (unat (g_dwBytesRead s)) s = (ok, k, s1)"
    by (cases "WriteFile (hFile (fs s fds)) (unat (g_dwBytesRead s)) s") auto
  from WriteFile_fs[OF r] r show ?thesis
    by (simp add: write_loop_def write_last_def SwitchToFiber_def set_BytesProcessed_def
        set_ResultCode_def)
qed

subsection \<open>Counting\<close>

lemma total_bytes_replicate: "total_bytes (replicate n (Transferred c)) = n * c"
  by (simp add: total_bytes_def sum_list_replicate)

lemma total_bytes_append: "total_bytes (xs @ ys) = total_bytes xs + total_bytes ys"
  by (simp add: total_bytes_def)


lemma Failed_in_set: "Failed e \<in> set xs \<Longrightarrow> list_ex is_Failed xs"
  unfolding list_ex_iff by (rule bexI[of _ "Failed e"]) simp_all

lemma dword_unat: "unat (of_nat n :: dword) = n mod 2 ^ 32"
  by (simp add: unat_of_nat)

subsection \<open>Runs of whole buffers\<close>

text \<open>One turn of the read fiber on a reliable source that still holds a whole buffer.\<close>

lemma read_turn_full:
  assumes "wired s" and "reader_turn s" and "rscript (source s) = []"
    and "BUFFER_SIZE \<le> length (unread (source s))"
  shows "wired (step s) \<and> writer_turn (step s) \<and> rscript (source (step s)) = [] \<and>
         unread (source (step s)) = drop BUFFER_SIZE (unread (source s)) \<and>
         destination (step s) = destination s \<and>
         read_results (trace (step s)) = read_results (trace s) @ [Transferred BUFFER_SIZE] \<and>
         write_results (trace (step s)) = write_results (trace s) \<and>
         g_dwBytesRead (step s) = of_nat BUFFER_SIZE \<and>
         BUFFER_SIZE \<le> length (g_lpBuffer (step s))"
proof -
  define s1 where "s1 = (if read_pc s = AtEntry then set_BytesProcessed READ_FIBER 0 s else s)"
  have st: "step s = read_loop READ_FIBER s1"
    unfolding s1_def using assms(1,2) by (rule step_reader)
  have s1: "running s1 = Some READ_FIBER" "trace s1 = trace s" "source s1 = source s"
    "destination s1 = destination s" "fiber_data s1 = fiber_data s"
    "write_pc s1 = write_pc s" "hFile (fs s1 READ_FIBER) = SourceHandle"
    "hFile (fs s1 WRITE_FIBER) = DestHandle"
    "write_pc s = AtEntry \<or> write_pc s = InLoop WRITE_FIBER" "fiber_data s = Some"
    using assms(1,2) by (auto simp: s1_def set_BytesProcessed_def reader_turn_def wired_def)
  from assms(4) have m: "min (length (unread (source s))) BUFFER_SIZE = BUFFER_SIZE"
    by simp
  have nz: "(of_nat BUFFER_SIZE :: dword) \<noteq> 0"
    by (simp add: BUFFER_SIZE_def)
  have "device_read (source s1) BUFFER_SIZE =
      (Transferred BUFFER_SIZE, take BUFFER_SIZE (unread (source s)),
       \<lparr>unread = drop BUFFER_SIZE (unread (source s)), rscript = []\<rparr>)"
    using assms(3) m by (simp add: device_read_def deliver_def s1)
  with s1 nz have "read_loop READ_FIBER s1 =
      s1\<lparr>fs := (fs s1)(READ_FIBER := (fs s1 READ_FIBER)
             \<lparr>dwBytesProcessed := dwBytesProcessed (fs s1 READ_FIBER) + of_nat BUFFER_SIZE\<rparr>),
         g_lpBuffer := take BUFFER_SIZE (unread (source s)) @ drop BUFFER_SIZE (g_lpBuffer s1),
         g_dwBytesRead := of_nat BUFFER_SIZE,
         source := \<lparr>unread = drop BUFFER_SIZE (unread (source s)), rscript = []\<rparr>,
         running := Some WRITE_FIBER, read_pc := InLoop READ_FIBER,
         trace := trace s1 @ [ReadDone (Transferred BUFFER_SIZE),
                              Switched READ_FIBER WRITE_FIBER]\<rparr>"
    by (simp add: read_loop_def ReadFile_def SwitchToFiber_def GetCurrentFiber_def
        set_BytesProcessed_def)
  with st s1 m show ?thesis
    by (simp add: wired_def writer_turn_def)
qed

text \<open>One turn of the write fiber on a device that takes a whole buffer.\<close>

lemma write_turn_full:
  assumes "wired s" and "writer_turn s"
    and "wscript (destination s) = AtMost BUFFER_SIZE # ws"
    and "g_dwBytesRead s = of_nat BUFFER_SIZE" and "BUFFER_SIZE \<le> length (g_lpBuffer s)"
  shows "wired (step s) \<and> reader_turn (step s) \<and> source (step s) = source s \<and>
         wscript (destination (step s)) = ws \<and>
         read_results (trace (step s)) = read_results (trace s) \<and>
         write_results (trace (step s)) = write_results (trace s) @ [Transferred BUFFER_SIZE]"
proof -
  define s1 where "s1 = (if write_pc s = AtEntry
      then set_ResultCode WRITE_FIBER ERROR_SUCCESS (set_BytesProcessed WRITE_FIBER 0 s) else s)"
  have st: "step s = write_loop WRITE_FIBER s1"
    unfolding s1_def using assms(1,2) by (rule step_writer)
  have s1: "running s1 = Some WRITE_FIBER" "trace s1 = trace s" "source s1 = source s"
    "destination s1 = destination s" "fiber_data s1 = fiber_data s"
    "read_pc s1 = read_pc s" "hFile (fs s1 READ_FIBER) = SourceHandle"
    "hFile (fs s1 WRITE_FIBER) = DestHandle" "g_lpBuffer s1 = g_lpBuffer s"
    "g_dwBytesRead s1 = g_dwBytesRead s" "read_pc s = InLoop READ_FIBER" "fiber_data s = Some"
    using assms(1,2)
    by (auto simp: s1_def set_BytesProcessed_def set_ResultCode_def writer_turn_def wired_def)
  have un: "unat (of_nat BUFFER_SIZE :: dword) = BUFFER_SIZE"
    by (simp add: small_dword_unat)
  from assms(5) have m: "min (length (g_lpBuffer s)) BUFFER_SIZE = BUFFER_SIZE" by simp
  have "device_write (destination s1) (take BUFFER_SIZE (g_lpBuffer s)) =
      (Transferred BUFFER_SIZE,
       \<lparr>written = written (destination s) @ take BUFFER_SIZE (g_lpBuffer s), wscript = ws\<rparr>)"
    using assms(3) m by (simp add: device_write_def accept_def s1)
  with s1 assms(4) un have "write_loop WRITE_FIBER s1 =
      s1\<lparr>fs := (fs s1)(WRITE_FIBER := (fs s1 WRITE_FIBER)
             \<lparr>dwBytesProcessed := dwBytesProcessed (fs s1 WRITE_FIBER) + of_nat BUFFER_SIZE\<rparr>),
         destination :=
           \<lparr>written = written (destination s) @ take BUFFER_SIZE (g_lpBuffer s), wscript = ws\<rparr>,
         running := Some READ_FIBER, write_pc := InLoop WRITE_FIBER,
         trace := trace s1 @ [WriteDone BUFFER_SIZE (Transferred BUFFER_SIZE),
                              Switched WRITE_FIBER READ_FIBER]\<rparr>"
    by (simp add: write_loop_def WriteFile_def SwitchToFiber_def GetCurrentFiber_def
        set_BytesProcessed_def)
  with st s1 show ?thesis
    by (simp add: wired_def reader_turn_def)
qed

lemma run_step: "worker_turn s \<Longrightarrow> run s = run (step s)"
  by (subst run.simps) simp

lemma run_done: "\<not> worker_turn s \<Longrightarrow> run s = s"
  by (subst run.simps) simp

text \<open>\<open>k\<close> rounds of whole buffers.\<close>

lemma full_cycles:
  assumes "wired s" and "reader_turn s" and "rscript (source s) = []"
    and "k * BUFFER_SIZE \<le> length (unread (source s))"
    and "wscript (destination s) = replicate k (AtMost BUFFER_SIZE) @ ws"
  shows "\<exists>s'. run s = run s' \<and> wired s' \<and> reader_turn s' \<and> rscript (source s') = [] \<and>
           unread (source s') = drop (k * BUFFER_SIZE) (unread (source s)) \<and>
           wscript (destination s') = ws \<and>
           read_results (trace s') =
             read_results (trace s) @ replicate k (Transferred BUFFER_SIZE) \<and>
           write_results (trace s') =
             write_results (trace s) @ replicate k (Transferred BUFFER_SIZE)"
  using assms
proof (induction k arbitrary: s)
  case 0
  then show ?case by auto
next
  case (Suc k)
  from Suc.prems(4) have len: "BUFFER_SIZE \<le> length (unread (source s))" by simp
  note r = read_turn_full[OF Suc.prems(1,2,3) len]
  from Suc.prems(5) r
  have ws: "wscript (destination (step s)) = AtMost BUFFER_SIZE # replicate k (AtMost BUFFER_SIZE) @ ws"
    by simp
  from r have r': "wired (step s)" "writer_turn (step s)"
    "g_dwBytesRead (step s) = of_nat BUFFER_SIZE" "BUFFER_SIZE \<le> length (g_lpBuffer (step s))"
    by simp_all
  note w = write_turn_full[OF r'(1,2) ws r'(3,4)]
  let ?t = "step (step s)"
  from Suc.prems(2) have "worker_turn s" by (simp add: reader_turn_def worker_turn_def)
  moreover from r'(2) have "worker_turn (step s)" by (simp add: writer_turn_def worker_turn_def)
  ultimately have run: "run s = run ?t" by (simp add: run_step)
  from w r Suc.prems(4) have t: "wired ?t" "reader_turn ?t" "rscript (source ?t) = []"
    "k * BUFFER_SIZE \<le> length (unread (source ?t))"
    "wscript (destination ?t) = replicate k (AtMost BUFFER_SIZE) @ ws"
    by simp_all
  from Suc.IH[OF t] obtain s' where s': "run ?t = run s'" "wired s'" "reader_turn s'"
    "rscript (source s') = []"
    "unread (source s') = drop (k * BUFFER_SIZE) (unread (source ?t))"
    "wscript (destination s') = ws"
    "read_results (trace s') = read_results (trace ?t) @ replicate k (Transferred BUFFER_SIZE)"
    "write_results (trace s') = write_results (trace ?t) @ replicate k (Transferred BUFFER_SIZE)"
    by blast
  have rep: "x # replicate k x = replicate (Suc k) x" for x :: io_result by simp
  from w r s'(5) have "unread (source s') = drop (Suc k * BUFFER_SIZE) (unread (source s))"
    by (simp add: add.commute)
  moreover from w r s'(7)
  have "read_results (trace s') = read_results (trace s) @ replicate (Suc k) (Transferred BUFFER_SIZE)"
    by simp
  moreover from w r s'(8)
  have "write_results (trace s') = write_results (trace s) @ replicate (Suc k) (Transferred BUFFER_SIZE)"
    by simp
  ultimately show ?case using run s'(1,2,3,4,6) by (intro exI[of _ s']) simp
qed


text \<open>The last turn of the write fiber on a device that fails.\<close>

lemma write_turn_fails:
  assumes "wired s" and "writer_turn s" and "wscript (destination s) = Fails e # ws"
  shows "run s = step s \<and>
         read_results (trace (step s)) = read_results (trace s) \<and>
         write_results (trace (step s)) = write_results (trace s) @ [Failed e]"
proof -
  define s1 where "s1 = (if write_pc s = AtEntry
      then set_ResultCode WRITE_FIBER ERROR_SUCCESS (set_BytesProcessed WRITE_FIBER 0 s) else s)"
  have st: "step s = write_loop WRITE_FIBER s1"
    unfolding s1_def using assms(1,2) by (rule step_writer)
  have s1: "running s1 = Some WRITE_FIBER" "trace s1 = trace s"
    "destination s1 = destination s" "hFile (fs s1 WRITE_FIBER) = DestHandle"
    "g_lpBuffer s1 = g_lpBuffer s" "g_dwBytesRead s1 = g_dwBytesRead s"
    using assms(1,2)
    by (auto simp: s1_def set_BytesProcessed_def set_ResultCode_def writer_turn_def wired_def)
  from assms(2) have wt: "worker_turn s" by (simp add: writer_turn_def worker_turn_def)
  from s1 assms(3) have "write_loop WRITE_FIBER s1 =
      s1\<lparr>fs := (fs s1)(WRITE_FIBER := (fs s1 WRITE_FIBER)\<lparr>dwFiberResultCode := e\<rparr>),
         LastError := e, destination := (destination s)\<lparr>wscript := ws\<rparr>,
         running := Some PRIMARY_FIBER, write_pc := AfterLast WRITE_FIBER,
         trace := trace s1 @ [WriteDone (unat (g_dwBytesRead s)) (Failed e),
                              Switched WRITE_FIBER PRIMARY_FIBER]\<rparr>"
    by (simp add: write_loop_def WriteFile_def device_write_def write_last_def
        SwitchToFiber_def GetCurrentFiber_def GetLastError_def set_ResultCode_def)
  with st s1 have "running (step s) = Some PRIMARY_FIBER \<and>
      read_results (trace (step s)) = read_results (trace s) \<and>
      write_results (trace (step s)) = write_results (trace s) @ [Failed e]"
    by simp
  moreover from this have "\<not> worker_turn (step s)" by (simp add: worker_turn_def)
  ultimately show ?thesis using wt by (simp add: run_step run_done)
qed

lemma begun_results:
  assumes "begun i"
  shows "wired i" "reader_turn i" "read_results (trace i) = []" "write_results (trace i) = []"
  using assms by (simp_all add: begun_def reader_turn_def)


text \<open>The same, with one more buffer in the source and a device that fails at the write
  after the \<open>k\<close>-th.\<close>

lemma failing_write_run:
  assumes "startup env = Inr s0"
    and "source_file env = Some \<lparr>unread = bs, rscript = []\<rparr>"
    and "length bs = Suc k * BUFFER_SIZE"
    and "dest_file env = Some (replicate k (AtMost BUFFER_SIZE) @ [Fails e])"
  shows "read_results (trace (fibers_run s0)) = replicate (Suc k) (Transferred BUFFER_SIZE) \<and>
         write_results (trace (fibers_run s0)) =
           replicate k (Transferred BUFFER_SIZE) @ [Failed e]"
proof -
  let ?i = "SwitchToFiber READ_FIBER s0"
  note b = startup_begun[OF assms(1)]
  note i = begun_results[OF b(1)]
  from trans[OF b(3)[symmetric] assms(2)]
  have eq: "source ?i = \<lparr>unread = bs, rscript = []\<rparr>" by simp
  have src: "rscript (source ?i) = []" "unread (source ?i) = bs" by (simp_all add: eq)
  from b(4) assms(4)
  have dst: "wscript (destination ?i) = replicate k (AtMost BUFFER_SIZE) @ [Fails e]"
    by simp
  from src(2) assms(3) have len: "k * BUFFER_SIZE \<le> length (unread (source ?i))" by simp
  from full_cycles[OF i(1,2) src(1) len dst] obtain s' where s': "run ?i = run s'"
    "wired s'" "reader_turn s'" "rscript (source s') = []"
    "unread (source s') = drop (k * BUFFER_SIZE) (unread (source ?i))"
    "wscript (destination s') = [Fails e]"
    "read_results (trace s') = read_results (trace ?i) @ replicate k (Transferred BUFFER_SIZE)"
    "write_results (trace s') = write_results (trace ?i) @ replicate k (Transferred BUFFER_SIZE)"
    by blast
  from s'(5) src(2) assms(3) have "BUFFER_SIZE \<le> length (unread (source s'))" by simp
  note r = read_turn_full[OF s'(2,3,4) this]
  from r s'(6) have w: "wired (step s')" "writer_turn (step s')"
    "wscript (destination (step s')) = Fails e # []"
    by simp_all
  from s'(3) have "worker_turn s'" by (simp add: reader_turn_def worker_turn_def)
  then have "run s' = run (step s')" by (rule run_step)
  with write_turn_fails[OF w] s'(1) have "fibers_run s0 = step (step s')"
    by (simp add: fibers_run_def)
  with write_turn_fails[OF w] r s'(7,8) i(3,4) show ?thesis
    by (simp add: replicate_append_same)
qed

text \<open>The counters \<open>_tmain\<close> prints, from the trace.\<close>

lemma final_counters:
  assumes "tmain env = Returned rc (Some s)"
  shows "read_results (trace s) \<noteq> [] \<Longrightarrow>
           dwBytesProcessed (fs s READ_FIBER) = of_nat (total_bytes (read_results (trace s)))"
    and "write_results (trace s) \<noteq> [] \<Longrightarrow>
           dwBytesProcessed (fs s WRITE_FIBER) = of_nat (total_bytes (write_results (trace s)))"
proof -
  from assms obtain i where "run_inv i s" by (rule tmain_final)
  then have t: "trace_ok s" and c: "counted i s" by (simp_all add: run_inv_def)
  from t c show "read_results (trace s) \<noteq> [] \<Longrightarrow>
      dwBytesProcessed (fs s READ_FIBER) = of_nat (total_bytes (read_results (trace s)))"
    by (simp add: trace_ok_def counted_def Let_def)
  from t c show "write_results (trace s) \<noteq> [] \<Longrightarrow>
      dwBytesProcessed (fs s WRITE_FIBER) = of_nat (total_bytes (write_results (trace s)))"
    by (simp add: trace_ok_def counted_def Let_def)
qed

lemma example_startup:
  "\<exists>s0. startup (example_env heap le bs rs ws) = Inr s0"
  by (simp add: example_env_def startup_def)


lemma failing_write_example:
  "case tmain (example_env heap le (replicate (Suc k * BUFFER_SIZE) b) []
                 (replicate k (AtMost BUFFER_SIZE) @ [Fails e])) of
     Returned rc (Some s) \<Rightarrow>
       read_results (trace s) = replicate (Suc k) (Transferred BUFFER_SIZE) \<and>
       write_results (trace s) = replicate k (Transferred BUFFER_SIZE) @ [Failed e] \<and>
       total_bytes (take k (write_results (trace s))) = k * BUFFER_SIZE \<and>
       dwBytesProcessed (fs s WRITE_FIBER) = of_nat (k * BUFFER_SIZE)
   | _ \<Rightarrow> False"
proof -
  let ?env = "example_env heap le (replicate (Suc k * BUFFER_SIZE) b) []
      (replicate k (AtMost BUFFER_SIZE) @ [Fails e])"
  from example_startup obtain s0 where s0: "startup ?env = Inr s0" by blast
  note r = tmain_returns[OF s0]
  have e: "source_file ?env = Some \<lparr>unread = replicate (Suc k * BUFFER_SIZE) b, rscript = []\<rparr>"
    "length (replicate (Suc k * BUFFER_SIZE) b) = Suc k * BUFFER_SIZE"
    "dest_file ?env = Some (replicate k (AtMost BUFFER_SIZE) @ [Fails e])"
    by (simp_all add: example_env_def)
  note t = failing_write_run[OF s0 e]
  then have ne: "write_results (trace (fibers_run s0)) \<noteq> []" by simp
  from t have tot: "total_bytes (write_results (trace (fibers_run s0))) = k * BUFFER_SIZE"
    by (simp add: total_bytes_replicate)
  have "dwBytesProcessed (fs (fibers_run s0) WRITE_FIBER) = of_nat (k * BUFFER_SIZE)"
    using final_counters(2)[OF r ne] by (simp only: tot)
  moreover from t have "total_bytes (take k (write_results (trace (fibers_run s0)))) = k * BUFFER_SIZE"
    by (simp add: total_bytes_replicate)
  ultimately show ?thesis using r t by simp
qed

lemmas example_defs = example_env_def example_heap_def tmain_def startup_def fibers_run_def step_def
  worker_turn_def ReadFiberFunc_def WriteFiberFunc_def read_loop_def write_loop_def
  read_last_def write_last_def ReadFile_def WriteFile_def device_read_def device_write_def
  deliver_def accept_def SwitchToFiber_def GetCurrentFiber_def GetLastError_def
  ExitThread_def set_BytesProcessed_def set_ResultCode_def fs_at_switch_def
  fs_at_create_write_def fs_at_create_read_def BUFFER_SIZE_def RTN_OK_def ERROR_SUCCESS_def
  reader_ended_def writer_ended_def run.simps

section \<open>The claims\<close>

text \<open>
  C1, as stated, fails: a write that reports success and takes fewer bytes than it was
  given is not repeated. The source holds the bytes 1, 2, 3; the first write takes two of
  them; every call succeeds, the run ends at the end of the source, and the destination
  holds 1, 2.
\<close>

theorem C1_short_write_counterexample:
  "case tmain (example_env 0 0 [1, 2, 3] [] [AtMost 2]) of
     Returned rc (Some s) \<Rightarrow>
       \<not> list_ex is_Failed (read_results (trace s)) \<and>
       \<not> list_ex is_Failed (write_results (trace s)) \<and>
       reader_ended s \<and> last (read_results (trace s)) = Transferred 0 \<and>
       written (destination s) = [1, 2]
   | _ \<Rightarrow> False"
  by (simp add: example_defs)

text \<open>
  C1, amended: for every source byte sequence, after a run in which every call of ReadFile
  and WriteFile succeeds and every write takes all the bytes it is given, the run has ended
  by the read fiber's last switch at the end of the source, and the destination holds
  exactly the bytes of the source, in order.
\<close>

theorem C1_copy_is_lossless:
  assumes "tmain env = Returned rc (Some s)"
    and "source_file env = Some src"
    and "\<not> list_ex is_Failed (read_results (trace s))"
    and "\<not> list_ex is_Failed (write_results (trace s))"
    and "\<not> list_ex short_write (trace s)"
  shows "reader_ended s \<and> last (read_results (trace s)) = Transferred 0 \<and>
         written (destination s) = unread src"
proof -
  from assms(1) obtain i where i: "run_inv i s" "reader_ended s \<or> writer_ended s"
    "source_file env = Some (source i)"
    by (rule tmain_final)
  from i(1,2) assms(4) have r: "reader_ended s" by (rule ended_by_reader)
  note e = ended_at_eof[OF i(1) r assms(3)]
  from r have "pending s = []" by (simp add: pending_def reader_ended_def)
  with i(1) assms(4,5) e(2) have "written (destination s) = unread (source i)"
    by (simp add: run_inv_def conserved_def)
  with i(3) assms(2) r e(1) show ?thesis by simp
qed

theorem C1_copy_is_lossless_witness:
  "case tmain (example_env 0 0 [1, 2, 3] [] []) of
     Returned rc (Some s) \<Rightarrow>
       \<not> list_ex is_Failed (read_results (trace s)) \<and>
       \<not> list_ex is_Failed (write_results (trace s)) \<and>
       \<not> list_ex short_write (trace s) \<and>
       reader_ended s \<and> last (read_results (trace s)) = Transferred 0 \<and>
       written (destination s) = [1, 2, 3]
   | _ \<Rightarrow> False"
proof -
  let ?env = "example_env 0 0 [1, 2, 3] [] []"
  obtain s where r: "tmain ?env = Returned RTN_OK (Some s)"
    by (simp add: example_defs)
  have src: "source_file ?env = Some \<lparr>unread = [1, 2, 3], rscript = []\<rparr>"
    by (simp add: example_env_def)
  have h: "\<not> list_ex is_Failed (read_results (trace s))"
    "\<not> list_ex is_Failed (write_results (trace s))"
    "\<not> list_ex short_write (trace s)"
    using r by (auto simp: example_defs)
  from C1_copy_is_lossless[OF r src h] r h show ?thesis by simp
qed

text \<open>
  C2, as stated, fails in two ways. After a short write that reports success the read
  fiber has counted 3 bytes and the write fiber 2. With an empty source the write fiber
  is never entered, and its counter holds what the heap block held (here BAADF00D), not
  the 0 of the read fiber.
\<close>

theorem C2_counters_differ_counterexample:
  "(case tmain (example_env 0 0 [1, 2, 3] [] [AtMost 2]) of
      Returned rc (Some s) \<Rightarrow>
        \<not> list_ex is_Failed (read_results (trace s)) \<and>
        \<not> list_ex is_Failed (write_results (trace s)) \<and>
        dwBytesProcessed (fs s READ_FIBER) = 3 \<and> dwBytesProcessed (fs s WRITE_FIBER) = 2
    | _ \<Rightarrow> False) \<and>
   (case tmain (example_env 0xBAADF00D 0 [] [] []) of
      Returned rc (Some s) \<Rightarrow>
        \<not> list_ex is_Failed (read_results (trace s)) \<and>
        \<not> list_ex is_Failed (write_results (trace s)) \<and>
        dwBytesProcessed (fs s READ_FIBER) = 0 \<and>
        dwBytesProcessed (fs s WRITE_FIBER) = 0xBAADF00D
    | _ \<Rightarrow> False)"
  by (simp add: example_defs)

text \<open>
  C2, amended: for every input stream that is not empty, on a run with no read or write
  error in which every write takes all the bytes it is given, the final bytesProcessed of
  the read fiber equals the final bytesProcessed of the write fiber.
\<close>

theorem C2_counters_agree:
  assumes "tmain env = Returned rc (Some s)"
    and "source_file env = Some src" and "unread src \<noteq> []"
    and "\<not> list_ex is_Failed (read_results (trace s))"
    and "\<not> list_ex is_Failed (write_results (trace s))"
    and "\<not> list_ex short_write (trace s)"
  shows "dwBytesProcessed (fs s READ_FIBER) = dwBytesProcessed (fs s WRITE_FIBER)"
proof -
  from assms(1) obtain i where i: "run_inv i s" "reader_ended s \<or> writer_ended s"
    "source_file env = Some (source i)"
    by (rule tmain_final)
  from i(1,2) assms(5) have r: "reader_ended s" by (rule ended_by_reader)
  note e = ended_at_eof[OF i(1) r assms(4)]
  from i(3) assms(2) have src: "source i = src" by simp
  from r have p: "pending s = []" "read_pc s \<noteq> AtEntry"
    by (simp_all add: pending_def reader_ended_def)
  from i(1) assms(5,6) e(2) p(1) src have w: "written (destination s) = unread src"
    by (simp add: run_inv_def conserved_def)
  from i(1) have c: "counted i s" and t: "trace_ok s" by (simp_all add: run_inv_def)
  from c e(2) src have rr: "total_bytes (read_results (trace s)) = length (unread src)"
    by (simp add: counted_def Let_def)
  from c w have wr: "total_bytes (write_results (trace s)) = length (unread src)"
    by (simp add: counted_def Let_def)
  from wr assms(3) have "write_results (trace s) \<noteq> []" by auto
  with t have "write_pc s \<noteq> AtEntry" by (simp add: trace_ok_def Let_def)
  with c p(2) rr wr show ?thesis by (simp add: counted_def Let_def)
qed

theorem C2_counters_agree_witness:
  "case tmain (example_env 0xBAADF00D 0 [1, 2, 3] [AtMost 2] []) of
     Returned rc (Some s) \<Rightarrow>
       \<not> list_ex is_Failed (read_results (trace s)) \<and>
       \<not> list_ex is_Failed (write_results (trace s)) \<and>
       \<not> list_ex short_write (trace s) \<and>
       dwBytesProcessed (fs s READ_FIBER) = dwBytesProcessed (fs s WRITE_FIBER)
   | _ \<Rightarrow> False"
proof -
  let ?env = "example_env 0xBAADF00D 0 [1, 2, 3] [AtMost 2] []"
  obtain s where r: "tmain ?env = Returned RTN_OK (Some s)"
    by (simp add: example_defs)
  have src: "source_file ?env = Some \<lparr>unread = [1, 2, 3], rscript = [AtMost 2]\<rparr>"
    "unread \<lparr>unread = [1, 2, 3 :: byte], rscript = [AtMost 2]\<rparr> \<noteq> []"
    by (simp_all add: example_env_def)
  have h: "\<not> list_ex is_Failed (read_results (trace s))"
    "\<not> list_ex is_Failed (write_results (trace s))"
    "\<not> list_ex short_write (trace s)"
    using r by (auto simp: example_defs)
  from C2_counters_agree[OF r src h] r h show ?thesis by simp
qed

text \<open>
  C3, as stated, fails in every run: control comes back to the primary fiber when one
  worker makes its last switch, and the other worker has not made its own. With an empty
  source the write fiber has not even been entered; after a failed write the read fiber
  is suspended inside its loop.
\<close>

theorem C3_one_worker_not_terminal_counterexample:
  "(case tmain (example_env 0 0 [] [] []) of
      Returned rc (Some s) \<Rightarrow> terminal (read_pc s) \<and> write_pc s = AtEntry
    | _ \<Rightarrow> False) \<and>
   (case tmain (example_env 0 0 [1, 2, 3] [] [Fails 5]) of
      Returned rc (Some s) \<Rightarrow> read_pc s = InLoop READ_FIBER \<and> terminal (write_pc s)
    | _ \<Rightarrow> False)"
  by (simp add: example_defs)

text \<open>
  C3, amended: in every run, when control returns to the primary fiber exactly one of the
  two workers has made its terminal transition, by the last switch of the run; the other
  one is suspended inside its loop (or, for the write fiber, was never entered) and is
  not resumed. Before that last switch control never returns to the primary fiber.
\<close>

theorem C3_exactly_one_worker_terminal:
  assumes "tmain env = Returned rc (Some s)"
  shows "(terminal (read_pc s) \<longleftrightarrow> \<not> terminal (write_pc s)) \<and>
         (reader_ended s \<and>
            switches (trace s) = (PRIMARY_FIBER, READ_FIBER)
              # cycles (length (write_results (trace s))) @ [(READ_FIBER, PRIMARY_FIBER)]
          \<or> writer_ended s \<and>
            switches (trace s) = (PRIMARY_FIBER, READ_FIBER)
              # cycles (length (write_results (trace s)) - 1)
              @ [(READ_FIBER, WRITE_FIBER), (WRITE_FIBER, PRIMARY_FIBER)])"
proof -
  from assms obtain i where i: "run_inv i s" "reader_ended s \<or> writer_ended s"
    by (rule tmain_final)
  from i(1) have t: "trace_ok s" by (simp add: run_inv_def)
  from i(2) show ?thesis
  proof
    assume r: "reader_ended s"
    with t have "switches (trace s) = (PRIMARY_FIBER, READ_FIBER)
        # cycles (length (write_results (trace s))) @ [(READ_FIBER, PRIMARY_FIBER)]"
      by (simp add: trace_ok_def Let_def)
    moreover from r have "terminal (read_pc s)" "\<not> terminal (write_pc s)"
      by (auto simp: reader_ended_def)
    ultimately show ?thesis using r by simp
  next
    assume w: "writer_ended s"
    with t have "switches (trace s) = (PRIMARY_FIBER, READ_FIBER)
        # cycles (length (write_results (trace s)) - 1)
        @ [(READ_FIBER, WRITE_FIBER), (WRITE_FIBER, PRIMARY_FIBER)]"
      by (simp add: trace_ok_def Let_def)
    moreover from w have "\<not> terminal (read_pc s)" "terminal (write_pc s)"
      by (auto simp: writer_ended_def)
    ultimately show ?thesis using w by simp
  qed
qed

theorem C3_exactly_one_worker_terminal_witness:
  "case tmain (example_env 0 0 [1, 2, 3] [] []) of
     Returned rc (Some s) \<Rightarrow>
       (terminal (read_pc s) \<longleftrightarrow> \<not> terminal (write_pc s)) \<and>
       switches (trace s) =
         [(PRIMARY_FIBER, READ_FIBER), (READ_FIBER, WRITE_FIBER), (WRITE_FIBER, READ_FIBER),
          (READ_FIBER, PRIMARY_FIBER)]
   | _ \<Rightarrow> False"
proof -
  let ?env = "example_env 0 0 [1, 2, 3] [] []"
  obtain s where r: "tmain ?env = Returned RTN_OK (Some s)"
    by (simp add: example_defs)
  have sw: "switches (trace s) =
      [(PRIMARY_FIBER, READ_FIBER), (READ_FIBER, WRITE_FIBER), (WRITE_FIBER, READ_FIBER),
       (READ_FIBER, PRIMARY_FIBER)]"
    using r by (auto simp: example_defs)
  from C3_exactly_one_worker_terminal[OF r] r sw show ?thesis by simp
qed

text \<open>
  C4, as stated, fails: the read fiber stores \<open>GetLastError()\<close> on both ways out of its
  loop, and at the end of the stream no call has failed, so what it stores is the
  last-error code the thread had before. With that code at 5 and an empty source the
  result code after a clean end of stream is 5; with a read that fails with code 5 in the
  middle of the stream it is 5 as well.
\<close>

theorem C4_same_result_code_counterexample:
  "(case tmain (example_env 0 5 [] [] []) of
      Returned rc (Some s) \<Rightarrow>
        read_results (trace s) = [Transferred 0] \<and> dwFiberResultCode (fs s READ_FIBER) = 5
    | _ \<Rightarrow> False) \<and>
   (case tmain (example_env 0 0 [1, 2, 3] [AtMost 2, Fails 5] []) of
      Returned rc (Some s) \<Rightarrow>
        read_results (trace s) = [Transferred 2, Failed 5] \<and>
        dwFiberResultCode (fs s READ_FIBER) = 5
    | _ \<Rightarrow> False)"
  by (simp add: example_defs)

text \<open>
  C4, amended: when the read fiber has made its terminal transition, its last read either
  failed or delivered zero bytes. After a failed read its final resultCode is the error
  code of that read; after a clean end of the stream it is the last-error code the thread
  had when the fibers were started (no call has failed since, and no value of its own is
  stored for the end of the stream). The two can be told apart exactly when these two
  codes differ.
\<close>

theorem C4_reader_result_code:
  assumes "tmain env = Returned rc (Some s)" and "terminal (read_pc s)"
  shows "(is_Failed (last (read_results (trace s))) \<or>
          last (read_results (trace s)) = Transferred 0) \<and>
         dwFiberResultCode (fs s READ_FIBER) =
           (case last (read_results (trace s)) of
              Failed e \<Rightarrow> e
            | Transferred k \<Rightarrow> thread_last_error env)"
proof -
  from assms(1) obtain i where i: "run_inv i s" "reader_ended s \<or> writer_ended s"
    "LastError i = thread_last_error env"
    by (rule tmain_final)
  from i(2) assms(2) have r: "reader_ended s"
    by (auto simp: writer_ended_def)
  from i(1) r have "is_Failed (last (read_results (trace s))) \<or>
      last (read_results (trace s)) = Transferred 0"
    by (simp add: run_inv_def trace_ok_def Let_def)
  moreover from i(1) r have "dwFiberResultCode (fs s READ_FIBER) =
      (case last (read_results (trace s)) of Failed e \<Rightarrow> e | Transferred k \<Rightarrow> LastError i)"
    by (simp add: run_inv_def counted_def Let_def)
  ultimately show ?thesis using i(3) by (simp split: io_result.splits)
qed

theorem C4_reader_result_code_witness:
  "case tmain (example_env 0 0 [1, 2, 3] [AtMost 2, Fails 5] []) of
     Returned rc (Some s) \<Rightarrow>
       terminal (read_pc s) \<and> last (read_results (trace s)) = Failed 5 \<and>
       dwFiberResultCode (fs s READ_FIBER) = 5
   | _ \<Rightarrow> False"
proof -
  let ?env = "example_env 0 0 [1, 2, 3] [AtMost 2, Fails 5] []"
  obtain s where r: "tmain ?env = Returned RTN_OK (Some s)"
    by (simp add: example_defs)
  have h: "terminal (read_pc s)" "last (read_results (trace s)) = Failed 5"
    using r by (auto simp: example_defs)
  from C4_reader_result_code[OF r h(1)] r h show ?thesis by simp
qed

text \<open>
  C5, as stated, fails in one point: there is no value that stands for the end of the
  stream. With an empty source the read fiber's result code is whatever last-error code
  the thread had: 0 in one run, 5 in another.
\<close>

theorem C5_no_sentinel_counterexample:
  "(case tmain (example_env 0 0 [] [] []) of
      Returned rc (Some s) \<Rightarrow>
        read_results (trace s) = [Transferred 0] \<and> dwFiberResultCode (fs s READ_FIBER) = 0
    | _ \<Rightarrow> False) \<and>
   (case tmain (example_env 0 5 [] [] []) of
      Returned rc (Some s) \<Rightarrow>
        read_results (trace s) = [Transferred 0] \<and> dwFiberResultCode (fs s READ_FIBER) = 5
    | _ \<Rightarrow> False)"
  by (simp add: example_defs)

text \<open>
  C5, amended: for a source stream of exactly 0 bytes whose read does not fail, the run
  ends after a single cycle of the read fiber (one read of zero bytes, then the switch to
  the primary fiber), the read fiber's bytesProcessed is 0, its resultCode is the
  last-error code the thread had when the fibers were started, and the write fiber never
  receives control.
\<close>

theorem C5_empty_source:
  assumes "tmain env = Returned rc (Some s)"
    and "source_file env = Some src" and "unread src = []"
    and "\<not> list_ex is_Failed (read_results (trace s))"
  shows "trace s = [Switched PRIMARY_FIBER READ_FIBER, ReadDone (Transferred 0),
                    Switched READ_FIBER PRIMARY_FIBER] \<and>
         dwBytesProcessed (fs s READ_FIBER) = 0 \<and>
         dwFiberResultCode (fs s READ_FIBER) = thread_last_error env \<and>
         write_pc s = AtEntry"
proof -
  from assms(1) obtain s0 where s0: "startup env = Inr s0"
    "s = run (SwitchToFiber READ_FIBER s0)"
    by (rule tmain_Returned)
  let ?i = "SwitchToFiber READ_FIBER s0"
  note b = startup_begun[OF s0(1)]
  from b(1) have w: "wired ?i" and rt: "reader_turn ?i" and e: "read_pc ?i = AtEntry"
    "write_pc ?i = AtEntry" "trace ?i = [Switched PRIMARY_FIBER READ_FIBER]"
    "running ?i = Some READ_FIBER"
    by (simp_all add: begun_def reader_turn_def)
  let ?s1 = "set_BytesProcessed READ_FIBER 0 ?i"
  from w rt e(1) have st: "step ?i = read_loop READ_FIBER ?s1"
    by (simp add: step_reader)
  have s1: "running ?s1 = Some READ_FIBER" "trace ?s1 = trace ?i" "source ?s1 = source ?i"
    "LastError ?s1 = LastError ?i" "write_pc ?s1 = write_pc ?i"
    "dwBytesProcessed (fs ?s1 READ_FIBER) = 0"
    using e(4) by (simp_all add: set_BytesProcessed_def)
  from b(3) assms(2,3) have empty: "unread (source ?i) = []" by simp
  from e(4) have wt: "worker_turn ?i" by (simp add: worker_turn_def)
  have fin: "s = step ?i" if "running (step ?i) = Some PRIMARY_FIBER"
  proof -
    from that have "\<not> worker_turn (step ?i)" by (simp add: worker_turn_def)
    then have "run (step ?i) = step ?i" by (subst run.simps) simp
    with wt s0(2) show ?thesis by (subst (asm) run.simps) simp
  qed
  from s1(1) show ?thesis
  proof (cases rule: read_loop_cases[where fds = READ_FIBER])
    case (failed e' f)
    with st fin have "s = read_loop READ_FIBER ?s1" by simp
    with failed(1) s1(2) e(3) have "read_results (trace s) = [Failed e']" by simp
    with assms(4) show ?thesis by simp
  next
    case (eof f)
    with st fin have "s = read_loop READ_FIBER ?s1" by simp
    with eof(1) s1 e b(2) show ?thesis by simp
  next
    case (more k bs f)
    with empty s1(3) show ?thesis by simp
  qed
qed

theorem C5_empty_source_witness:
  "case tmain (example_env 0xBAADF00D 0 [] [] []) of
     Returned rc (Some s) \<Rightarrow>
       \<not> list_ex is_Failed (read_results (trace s)) \<and>
       trace s = [Switched PRIMARY_FIBER READ_FIBER, ReadDone (Transferred 0),
                  Switched READ_FIBER PRIMARY_FIBER] \<and>
       dwBytesProcessed (fs s READ_FIBER) = 0 \<and> dwFiberResultCode (fs s READ_FIBER) = 0 \<and>
       write_pc s = AtEntry
   | _ \<Rightarrow> False"
proof -
  let ?env = "example_env 0xBAADF00D 0 [] [] []"
  obtain s where r: "tmain ?env = Returned RTN_OK (Some s)"
    by (simp add: example_defs)
  have src: "source_file ?env = Some \<lparr>unread = [], rscript = []\<rparr>"
    "unread \<lparr>unread = [] :: byte list, rscript = []\<rparr> = []"
    "thread_last_error ?env = 0"
    by (simp_all add: example_env_def)
  have h: "\<not> list_ex is_Failed (read_results (trace s))"
    using r by (auto simp: example_defs)
  from C5_empty_source[OF r src(1,2) h] r h src(3) show ?thesis by simp
qed

text \<open>
  C6, as stated, fails in one point, the value of the counter: bytesProcessed is a DWORD
  and wraps. With writes of a whole buffer of 32768 bytes each, the write of cycle 131073
  failing, the first 131072 writes have written 4294967296 bytes and the write fiber's
  bytesProcessed is 0.
\<close>

theorem C6_counter_wraps_counterexample:
  "case tmain (example_env 0 0 (replicate (Suc 131072 * BUFFER_SIZE) 0) []
                 (replicate 131072 (AtMost BUFFER_SIZE) @ [Fails 5])) of
     Returned rc (Some s) \<Rightarrow>
       write_results (trace s) = replicate 131072 (Transferred BUFFER_SIZE) @ [Failed 5] \<and>
       total_bytes (take 131072 (write_results (trace s))) = 4294967296 \<and>
       dwBytesProcessed (fs s WRITE_FIBER) = 0
   | _ \<Rightarrow> False"
proof -
  have w: "(of_nat (131072 * BUFFER_SIZE) :: dword) = 0"
    by (simp add: BUFFER_SIZE_def)
  have n: "131072 * BUFFER_SIZE = 4294967296"
    by (simp add: BUFFER_SIZE_def)
  from failing_write_example[where k = 131072 and heap = 0 and le = 0 and b = 0 and e = 5]
  show ?thesis
    unfolding w
    by (simp add: n total_bytes_replicate split: tmain_result.splits option.splits)
qed

text \<open>
  C6, amended: if the destination write fails on cycle \<open>m\<close>, then the write fiber has made
  its terminal transition straight to the primary fiber, with the read fiber suspended
  inside its loop; exactly \<open>m\<close> writes and \<open>m\<close> reads were made (no read number
  \<open>m + 1\<close>); the write fiber's resultCode is the error code of the failed write; and its
  bytesProcessed is the sum of the bytes written in the first \<open>m - 1\<close> cycles, all
  successful, taken modulo \<open>2 ^ 32\<close> (the counter is a DWORD), which is that sum itself
  whenever it is below \<open>2 ^ 32\<close>.
\<close>

theorem C6_write_failure:
  assumes "tmain env = Returned rc (Some s)"
    and "0 < m" and "m \<le> length (write_results (trace s))"
    and "write_results (trace s) ! (m - 1) = Failed e"
  shows "writer_ended s \<and>
         last (switches (trace s)) = (WRITE_FIBER, PRIMARY_FIBER) \<and>
         length (write_results (trace s)) = m \<and>
         length (read_results (trace s)) = m \<and>
         \<not> list_ex is_Failed (take (m - 1) (write_results (trace s))) \<and>
         dwFiberResultCode (fs s WRITE_FIBER) = e \<and>
         dwBytesProcessed (fs s WRITE_FIBER) =
           of_nat (total_bytes (take (m - 1) (write_results (trace s)))) \<and>
         unat (dwBytesProcessed (fs s WRITE_FIBER)) =
           total_bytes (take (m - 1) (write_results (trace s))) mod 2 ^ 32 \<and>
         (total_bytes (take (m - 1) (write_results (trace s))) < 2 ^ 32 \<longrightarrow>
          unat (dwBytesProcessed (fs s WRITE_FIBER)) =
            total_bytes (take (m - 1) (write_results (trace s))))"
proof -
  let ?wr = "write_results (trace s)"
  from assms(1) obtain i where i: "run_inv i s" "reader_ended s \<or> writer_ended s"
    by (rule tmain_final)
  from i(1) have t: "trace_ok s" and c: "counted i s" by (simp_all add: run_inv_def)
  from assms(2,3) have lt: "m - 1 < length ?wr" by simp
  then have "?wr ! (m - 1) \<in> set ?wr" by (rule nth_mem)
  with assms(4) have f: "list_ex is_Failed ?wr"
    by (simp add: Failed_in_set)
  have w: "writer_ended s"
  proof (rule ccontr)
    assume "\<not> writer_ended s"
    with i(2) have "reader_ended s" by simp
    with t f show False by (simp add: trace_ok_def Let_def)
  qed
  with t have tw: "?wr \<noteq> []" "\<not> list_ex is_Failed (butlast ?wr)"
    "length (read_results (trace s)) = length ?wr"
    "switches (trace s) = (PRIMARY_FIBER, READ_FIBER) # cycles (length ?wr - 1)
       @ [(READ_FIBER, WRITE_FIBER), (WRITE_FIBER, PRIMARY_FIBER)]"
    by (simp_all add: trace_ok_def Let_def)
  have m: "m = length ?wr"
  proof (rule ccontr)
    assume "m \<noteq> length ?wr"
    with lt assms(2) have l: "m - 1 < length (butlast ?wr)" by simp
    then have "butlast ?wr ! (m - 1) \<in> set (butlast ?wr)" by (rule nth_mem)
    moreover from l have "butlast ?wr ! (m - 1) = ?wr ! (m - 1)"
      by (simp add: nth_butlast)
    ultimately have "list_ex is_Failed (butlast ?wr)"
      using assms(4) by (simp add: Failed_in_set)
    with tw(2) show False by simp
  qed
  from tw(1) m have tk: "take (m - 1) ?wr = butlast ?wr"
    by (simp add: butlast_conv_take)
  from tw(1) m assms(4) have la: "last ?wr = Failed e"
    by (simp add: last_conv_nth)
  from tw(1) have "?wr = butlast ?wr @ [last ?wr]" by simp
  then have "total_bytes ?wr = total_bytes (butlast ?wr) + bytes_of (last ?wr)"
    by (metis total_simps(2))
  with la tk have tot: "total_bytes ?wr = total_bytes (take (m - 1) ?wr)"
    by simp
  from w have "write_pc s \<noteq> AtEntry" by (simp add: writer_ended_def)
  with c tot have bp: "dwBytesProcessed (fs s WRITE_FIBER) = of_nat (total_bytes (take (m - 1) ?wr))"
    by (simp add: counted_def Let_def)
  from c w la have rcode: "dwFiberResultCode (fs s WRITE_FIBER) = e"
    by (simp add: counted_def Let_def)
  from bp have un: "unat (dwBytesProcessed (fs s WRITE_FIBER)) =
      total_bytes (take (m - 1) ?wr) mod 2 ^ 32"
    by (simp only: dword_unat)
  from w tw m tk bp rcode un show ?thesis by simp
qed

theorem C6_write_failure_witness:
  "case tmain (example_env 0 0 [1, 2, 3] [AtMost 2] [AtMost 5, Fails 5]) of
     Returned rc (Some s) \<Rightarrow>
       write_results (trace s) = [Transferred 2, Failed 5] \<and>
       writer_ended s \<and> length (read_results (trace s)) = 2 \<and>
       dwFiberResultCode (fs s WRITE_FIBER) = 5 \<and> dwBytesProcessed (fs s WRITE_FIBER) = 2 \<and>
       unat (dwBytesProcessed (fs s WRITE_FIBER)) = 2
   | _ \<Rightarrow> False"
proof -
  let ?env = "example_env 0 0 [1, 2, 3] [AtMost 2] [AtMost 5, Fails 5]"
  obtain s where r: "tmain ?env = Returned RTN_OK (Some s)"
    by (simp add: example_defs)
  have wr: "write_results (trace s) = [Transferred 2, Failed 5]"
    using r by (auto simp: example_defs)
  have h: "0 < (2::nat)" "2 \<le> length (write_results (trace s))"
    "write_results (trace s) ! (2 - 1) = Failed 5"
    by (simp_all add: wr)
  from C6_write_failure[OF r h] r wr show ?thesis
    by (simp add: total_bytes_def)
qed

text \<open>
  C7, as stated, fails: the blocks come from \<open>HeapAlloc\<close> without zeroing, and
  \<open>_tmain\<close> stores only the handles and, after each \<open>CreateFiber\<close>, a tag in
  \<open>dwParameter\<close>. On a heap that held BAADF00D the result code and the byte counter of
  both workers hold BAADF00D when the fibers are created and until the worker first
  runs, and the parameters hold 12345678 and 54545454 before the workers first run.
\<close>

theorem C7_blocks_not_zeroed_counterexample:
  "dwFiberResultCode (fs_at_create_read (example_heap 0xBAADF00D) READ_FIBER) = 0xBAADF00D \<and>
   dwBytesProcessed (fs_at_create_write (example_heap 0xBAADF00D) WRITE_FIBER) = 0xBAADF00D \<and>
   (case startup (example_env 0xBAADF00D 0 [] [] []) of
      Inr s0 \<Rightarrow>
        trace s0 = [] \<and>
        dwParameter (fs s0 READ_FIBER) = 0x12345678 \<and>
        dwFiberResultCode (fs s0 READ_FIBER) = 0xBAADF00D \<and>
        dwBytesProcessed (fs s0 READ_FIBER) = 0xBAADF00D \<and>
        dwParameter (fs s0 WRITE_FIBER) = 0x54545454 \<and>
        dwFiberResultCode (fs s0 WRITE_FIBER) = 0xBAADF00D \<and>
        dwBytesProcessed (fs s0 WRITE_FIBER) = 0xBAADF00D
    | Inl rc \<Rightarrow> False)"
  by (simp add: example_defs)

text \<open>
  C7, amended: when the Coordinator creates the two workers, each worker's block holds
  what the allocation left in it, except for the stream handle, which is set; nothing is
  zeroed. Before the worker first executes the Coordinator sets taskParameter to 12345678
  (read fiber) and 54545454 (write fiber) and leaves resultCode and bytesProcessed as they
  were. No worker has run by then.
\<close>

theorem C7_blocks_at_creation:
  assumes "startup env = Inr s0" and "heap_fs env = Some fs0"
  shows "fs_at_create_read fs0 READ_FIBER = (fs0 READ_FIBER)\<lparr>hFile := SourceHandle\<rparr> \<and>
         fs_at_create_write fs0 WRITE_FIBER = (fs0 WRITE_FIBER)\<lparr>hFile := DestHandle\<rparr> \<and>
         fs s0 READ_FIBER = (fs0 READ_FIBER)\<lparr>dwParameter := 0x12345678, hFile := SourceHandle\<rparr> \<and>
         fs s0 WRITE_FIBER = (fs0 WRITE_FIBER)\<lparr>dwParameter := 0x54545454, hFile := DestHandle\<rparr> \<and>
         read_pc s0 = AtEntry \<and> write_pc s0 = AtEntry \<and> trace s0 = []"
  using assms
  by (auto elim!: startup_Inr
      simp: fs_at_switch_def fs_at_create_write_def fs_at_create_read_def)

theorem C7_blocks_at_creation_witness:
  "case startup (example_env 7 0 [] [] []) of
     Inr s0 \<Rightarrow>
       heap_fs (example_env 7 0 [] [] []) = Some (example_heap 7) \<and>
       fs s0 READ_FIBER = \<lparr>dwParameter = 0x12345678, dwFiberResultCode = 7,
                            hFile = SourceHandle, dwBytesProcessed = 7\<rparr> \<and>
       fs s0 WRITE_FIBER = \<lparr>dwParameter = 0x54545454, dwFiberResultCode = 7,
                             hFile = DestHandle, dwBytesProcessed = 7\<rparr> \<and>
       trace s0 = []
   | Inl rc \<Rightarrow> False"
proof -
  let ?env = "example_env 7 0 [] [] []"
  obtain s0 where r: "startup ?env = Inr s0"
    by (simp add: example_env_def startup_def)
  have h: "heap_fs ?env = Some (example_heap 7)"
    by (simp add: example_env_def)
  from C7_blocks_at_creation[OF r h] r h show ?thesis
    by (simp add: example_heap_def)
qed




text \<open>
  C9: when the write fiber is resumed (at its entry or inside its loop) and the device
  takes \<open>m\<close> bytes, fewer than the read fiber has just read, and reports success, the write
  fiber adds \<open>m\<close> to its bytesProcessed, stores nothing in its resultCode (which is the
  \<open>ERROR_SUCCESS\<close> of its entry), leaves the last-error code alone, and switches to the read
  fiber: the short write is not told from a full one.
\<close>

theorem C9_short_write_goes_on:
  assumes "running s = Some WRITE_FIBER"
    and "write_pc s = AtEntry \<or> write_pc s = InLoop fds"
    and "hFile (fs s fds) = DestHandle"
    and "wscript (destination s) = AtMost m # ws"
    and "m < unat (g_dwBytesRead s)"
    and "unat (g_dwBytesRead s) \<le> length (g_lpBuffer s)"
  shows "trace (WriteFiberFunc (Some fds) s) =
           trace s @ [WriteDone (unat (g_dwBytesRead s)) (Transferred m),
                      Switched WRITE_FIBER READ_FIBER] \<and>
         running (WriteFiberFunc (Some fds) s) = Some READ_FIBER \<and>
         write_pc (WriteFiberFunc (Some fds) s) = InLoop fds \<and>
         dwBytesProcessed (fs (WriteFiberFunc (Some fds) s) fds) =
           (if write_pc s = AtEntry then 0 else dwBytesProcessed (fs s fds)) + of_nat m \<and>
         dwFiberResultCode (fs (WriteFiberFunc (Some fds) s) fds) =
           (if write_pc s = AtEntry then ERROR_SUCCESS else dwFiberResultCode (fs s fds)) \<and>
         LastError (WriteFiberFunc (Some fds) s) = LastError s \<and>
         written (destination (WriteFiberFunc (Some fds) s)) =
           written (destination s) @ take m (g_lpBuffer s)"
proof -
  from assms(5,6) have "min (length (g_lpBuffer s)) (min (unat (g_dwBytesRead s)) m) = m"
    by simp
  with assms show ?thesis
    by (auto simp: WriteFiberFunc_def write_loop_def WriteFile_def device_write_def accept_def
        SwitchToFiber_def GetCurrentFiber_def set_BytesProcessed_def set_ResultCode_def
        min.absorb2)
qed

theorem C9_short_write_goes_on_witness:
  "case startup (example_env 7 0 [1, 2, 3] [] [AtMost 2]) of
     Inr s0 \<Rightarrow>
       (let s = step (SwitchToFiber READ_FIBER s0) in
        running s = Some WRITE_FIBER \<and> write_pc s = AtEntry \<and>
        hFile (fs s WRITE_FIBER) = DestHandle \<and> wscript (destination s) = [AtMost 2] \<and>
        unat (g_dwBytesRead s) = 3 \<and> unat (g_dwBytesRead s) \<le> length (g_lpBuffer s) \<and>
        trace (WriteFiberFunc (Some WRITE_FIBER) s) =
          trace s @ [WriteDone 3 (Transferred 2), Switched WRITE_FIBER READ_FIBER] \<and>
        dwBytesProcessed (fs (WriteFiberFunc (Some WRITE_FIBER) s) WRITE_FIBER) = 2 \<and>
        dwFiberResultCode (fs (WriteFiberFunc (Some WRITE_FIBER) s) WRITE_FIBER) = ERROR_SUCCESS \<and>
        written (destination (WriteFiberFunc (Some WRITE_FIBER) s)) = [1, 2])
   | Inl rc \<Rightarrow> False"
proof -
  let ?env = "example_env 7 0 [1, 2, 3] [] [AtMost 2]"
  obtain s0 where r: "startup ?env = Inr s0"
    by (simp add: example_env_def startup_def)
  define s where "s = step (SwitchToFiber READ_FIBER s0)"
  have h: "running s = Some WRITE_FIBER" "write_pc s = AtEntry \<or> write_pc s = InLoop WRITE_FIBER"
    "hFile (fs s WRITE_FIBER) = DestHandle" "wscript (destination s) = AtMost 2 # []"
    "2 < unat (g_dwBytesRead s)" "unat (g_dwBytesRead s) \<le> length (g_lpBuffer s)"
    and e: "write_pc s = AtEntry" "unat (g_dwBytesRead s) = 3" "take 2 (g_lpBuffer s) = [1, 2]"
      "written (destination s) = []"
    using r unfolding s_def
    by (auto simp: example_env_def example_heap_def startup_def step_def ReadFiberFunc_def
        read_loop_def ReadFile_def device_read_def deliver_def SwitchToFiber_def
        GetCurrentFiber_def set_BytesProcessed_def fs_at_switch_def fs_at_create_write_def
        fs_at_create_read_def BUFFER_SIZE_def)
  from C9_short_write_goes_on[OF h] r h e show ?thesis
    by (simp add: s_def[symmetric] Let_def)
qed

text \<open>
  C10: a worker that is resumed, at whichever of its points, with \<open>fds\<close> the block it was
  created with, changes no \<open>dwParameter\<close> and no \<open>hFile\<close> of any block, and leaves every
  block other than \<open>fds\<close> as it is: what it changes is the result code and the byte
  counter of its own block. In the program the read fiber's block is \<open>fs[READ_FIBER]\<close> and
  the write fiber's is \<open>fs[WRITE_FIBER]\<close>, so neither touches the other's block or the
  primary fiber's.
\<close>

theorem C10_workers_change_own_counters_only:
  assumes "read_pc s = AtEntry \<or> read_pc s = InLoop r \<or> read_pc s = AfterLast r"
    and "write_pc s = AtEntry \<or> write_pc s = InLoop w \<or> write_pc s = AfterLast w"
  shows "dwParameter (fs (ReadFiberFunc (Some r) s) g) = dwParameter (fs s g) \<and>
         hFile (fs (ReadFiberFunc (Some r) s) g) = hFile (fs s g) \<and>
         (g \<noteq> r \<longrightarrow> fs (ReadFiberFunc (Some r) s) g = fs s g) \<and>
         dwParameter (fs (WriteFiberFunc (Some w) s) g) = dwParameter (fs s g) \<and>
         hFile (fs (WriteFiberFunc (Some w) s) g) = hFile (fs s g) \<and>
         (g \<noteq> w \<longrightarrow> fs (WriteFiberFunc (Some w) s) g = fs s g)"
proof -
  have entry_r: "fs (set_BytesProcessed r 0 s) g = (if g = r then (fs s r)\<lparr>dwBytesProcessed := 0\<rparr> else fs s g)"
    by (simp add: set_BytesProcessed_def)
  have entry_w: "fs (set_ResultCode w ERROR_SUCCESS (set_BytesProcessed w 0 s)) g =
      (if g = w then (fs s w)\<lparr>dwBytesProcessed := 0, dwFiberResultCode := ERROR_SUCCESS\<rparr>
       else fs s g)"
    by (simp add: set_BytesProcessed_def set_ResultCode_def)
  have R: "dwParameter (fs (ReadFiberFunc (Some r) s) g) = dwParameter (fs s g) \<and>
      hFile (fs (ReadFiberFunc (Some r) s) g) = hFile (fs s g) \<and>
      (g \<noteq> r \<longrightarrow> fs (ReadFiberFunc (Some r) s) g = fs s g)"
  proof (cases "read_pc s")
    case AtEntry
    then have "ReadFiberFunc (Some r) s = read_loop r (set_BytesProcessed r 0 s)"
      by (simp add: ReadFiberFunc_def)
    with read_loop_frame[of r "set_BytesProcessed r 0 s" g] entry_r show ?thesis
      by (cases "g = r") simp_all
  next
    case (InLoop f)
    with assms(1) have "ReadFiberFunc (Some r) s = read_loop r s"
      by (simp add: ReadFiberFunc_def)
    with read_loop_frame[of r s g] show ?thesis by simp
  next
    case (AfterLast f)
    then show ?thesis by (simp add: ReadFiberFunc_def ExitThread_def)
  qed
  have W: "dwParameter (fs (WriteFiberFunc (Some w) s) g) = dwParameter (fs s g) \<and>
      hFile (fs (WriteFiberFunc (Some w) s) g) = hFile (fs s g) \<and>
      (g \<noteq> w \<longrightarrow> fs (WriteFiberFunc (Some w) s) g = fs s g)"
  proof (cases "write_pc s")
    case AtEntry
    then have "WriteFiberFunc (Some w) s =
        write_loop w (set_ResultCode w ERROR_SUCCESS (set_BytesProcessed w 0 s))"
      by (simp add: WriteFiberFunc_def)
    with write_loop_frame[of w "set_ResultCode w ERROR_SUCCESS (set_BytesProcessed w 0 s)" g]
      entry_w show ?thesis
      by (cases "g = w") simp_all
  next
    case (InLoop f)
    with assms(2) have "WriteFiberFunc (Some w) s = write_loop w s"
      by (simp add: WriteFiberFunc_def)
    with write_loop_frame[of w s g] show ?thesis by simp
  next
    case (AfterLast f)
    then show ?thesis by (simp add: WriteFiberFunc_def ExitThread_def)
  qed
  from R W show ?thesis by simp
qed

theorem C10_workers_change_own_counters_only_witness:
  "case startup (example_env 7 0 [1, 2, 3] [] []) of
     Inr s0 \<Rightarrow>
       (let s = SwitchToFiber READ_FIBER s0 in
        read_pc s = AtEntry \<and> write_pc s = AtEntry \<and>
        fs (ReadFiberFunc (Some READ_FIBER) s) WRITE_FIBER = fs s WRITE_FIBER \<and>
        fs (ReadFiberFunc (Some READ_FIBER) s) PRIMARY_FIBER = fs s PRIMARY_FIBER \<and>
        dwParameter (fs (ReadFiberFunc (Some READ_FIBER) s) READ_FIBER) = 0x12345678 \<and>
        hFile (fs (ReadFiberFunc (Some READ_FIBER) s) READ_FIBER) = SourceHandle \<and>
        fs (WriteFiberFunc (Some WRITE_FIBER) s) READ_FIBER = fs s READ_FIBER \<and>
        fs (WriteFiberFunc (Some WRITE_FIBER) s) PRIMARY_FIBER = fs s PRIMARY_FIBER \<and>
        dwParameter (fs (WriteFiberFunc (Some WRITE_FIBER) s) WRITE_FIBER) = 0x54545454 \<and>
        hFile (fs (WriteFiberFunc (Some WRITE_FIBER) s) WRITE_FIBER) = DestHandle)
   | Inl rc \<Rightarrow> False"
proof -
  let ?env = "example_env 7 0 [1, 2, 3] [] []"
  obtain s0 where r: "startup ?env = Inr s0"
    by (simp add: example_env_def startup_def)
  define s where "s = SwitchToFiber READ_FIBER s0"
  have h: "read_pc s = AtEntry \<or> read_pc s = InLoop READ_FIBER \<or> read_pc s = AfterLast READ_FIBER"
    "write_pc s = AtEntry \<or> write_pc s = InLoop WRITE_FIBER \<or> write_pc s = AfterLast WRITE_FIBER"
    and e: "read_pc s = AtEntry" "write_pc s = AtEntry"
    "dwParameter (fs s READ_FIBER) = 0x12345678" "hFile (fs s READ_FIBER) = SourceHandle"
    "dwParameter (fs s WRITE_FIBER) = 0x54545454" "hFile (fs s WRITE_FIBER) = DestHandle"
    using r unfolding s_def
    by (auto simp: example_env_def example_heap_def startup_def SwitchToFiber_def
        fs_at_switch_def fs_at_create_write_def fs_at_create_read_def)
  from C10_workers_change_own_counters_only[OF h, of WRITE_FIBER]
    C10_workers_change_own_counters_only[OF h, of READ_FIBER]
    C10_workers_change_own_counters_only[OF h, of PRIMARY_FIBER]
    r e show ?thesis
    by (simp add: s_def[symmetric] Let_def)
qed

end
